theory Spec2Isabelle
  imports
    Main
    "HOL-Library.Word"
    "HOL-Library.AList"
    "HOL-Library.Multiset"
    "HOL-Library.Char_ord"
    "HOL-Library.List_Lexorder"
begin

unbundle bit_operations_syntax

section \<open>The deployment store of xdg-app (\<^verbatim>\<open>common/xdg-app-dir.c\<close>)\<close>

text \<open>
  A shallow embedding of the functions of \<^verbatim>\<open>xdg-app-dir.c\<close> that list refs and
  deployments, switch the \<^verbatim>\<open>active\<close> link, deploy and undeploy a checkout, rewrite
  exported launcher files, read remote options and fetch the metadata of a commit.

  C strings are \<open>string\<close> (lists of bytes, no NUL inside), \<^verbatim>\<open>NULL\<close> is \<open>None\<close>, a
  \<^verbatim>\<open>gboolean\<close> result with a \<^verbatim>\<open>GError\<close> is a value of \<open>error + 'a\<close>. Calls into GLib,
  GIO, libgsystem and OSTree are not code of this file: each is modelled by a small
  function that says what the call does to the model state, or is taken as a parameter
  where its result cannot be computed from the model (the network, the object store, the
  decompressor, the random temporary names).
\<close>

subsection \<open>Errors\<close>

text \<open>The error kinds the functions set: the \<^verbatim>\<open>G_IO_ERROR\<close> codes they test or raise,
  the three codes of \<^verbatim>\<open>XDG_APP_DIR_ERROR\<close>, a key-file parse error and an error of the
  object store.\<close>

datatype error =
    G_IO_ERROR_FAILED
  | G_IO_ERROR_NOT_FOUND
  | G_IO_ERROR_EXISTS
  | G_IO_ERROR_IS_DIRECTORY
  | G_IO_ERROR_NOT_DIRECTORY
  | G_IO_ERROR_NOT_EMPTY
  | G_IO_ERROR_INVALID_ARGUMENT
  | G_KEY_FILE_ERROR_PARSE
  | XDG_APP_DIR_ERROR_NOT_DEPLOYED
  | XDG_APP_DIR_ERROR_ALREADY_DEPLOYED
  | XDG_APP_DIR_ERROR_ALREADY_UNDEPLOYED
  | OSTREE_ERROR

subsection \<open>Key files\<close>

text \<open>
  A \<^verbatim>\<open>GKeyFile\<close> in memory: its groups in file order, each with its lines in order. A
  line is a key with its value, or a comment (the pair with a \<^verbatim>\<open>NULL\<close> key of GLib).
  Values are held decoded, as \<^verbatim>\<open>g_key_file_get_string\<close> returns them and
  \<^verbatim>\<open>g_key_file_set_string\<close> takes them.
\<close>

datatype kf_line = KeyValue string string | CommentLine string

type_synonym key_file = "(string \<times> kf_line list) list"

fun lookup_key :: "kf_line list \<Rightarrow> string \<Rightarrow> string option" where
  "lookup_key [] key = None"
| "lookup_key (KeyValue k v # ls) key = (if k = key then Some v else lookup_key ls key)"
| "lookup_key (CommentLine c # ls) key = lookup_key ls key"

definition g_key_file_get_string :: "key_file \<Rightarrow> string \<Rightarrow> string \<Rightarrow> string option" where
  "g_key_file_get_string kf group_name key =
     (case map_of kf group_name of
        None \<Rightarrow> None
      | Some ls \<Rightarrow> lookup_key ls key)"

text \<open>\<^verbatim>\<open>g_key_file_get_boolean\<close> with a \<^verbatim>\<open>NULL\<close> error: \<^verbatim>\<open>TRUE\<close> for the values
  \<^verbatim>\<open>true\<close> and \<^verbatim>\<open>1\<close>, \<^verbatim>\<open>FALSE\<close> for every other value and when the group or the key
  is not there.\<close>

definition g_key_file_get_boolean :: "key_file \<Rightarrow> string \<Rightarrow> string \<Rightarrow> bool" where
  "g_key_file_get_boolean kf group_name key =
     (case g_key_file_get_string kf group_name key of
        None \<Rightarrow> False
      | Some v \<Rightarrow> v = ''true'' \<or> v = ''1'')"

subsection \<open>Remote options\<close>

definition get_group :: "string \<Rightarrow> string" where
  "get_group remote_name = ''remote '' @ [CHR 0x22] @ remote_name @ [CHR 0x22]"

text \<open>The first argument is the result of \<^verbatim>\<open>ostree_repo_get_config (self->repo)\<close>.\<close>

definition xdg_app_dir_get_remote_title :: "key_file option \<Rightarrow> string \<Rightarrow> string option" where
  "xdg_app_dir_get_remote_title config remote_name =
     (case config of
        Some c \<Rightarrow> g_key_file_get_string c (get_group remote_name) ''xa.title''
      | None \<Rightarrow> None)"

definition xdg_app_dir_get_remote_noenumerate :: "key_file option \<Rightarrow> string \<Rightarrow> bool" where
  "xdg_app_dir_get_remote_noenumerate config remote_name =
     (case config of
        Some c \<Rightarrow> g_key_file_get_boolean c (get_group remote_name) ''xa.noenumerate''
      | None \<Rightarrow> True)"

subsection \<open>Fetching the metadata of a remote commit\<close>

type_synonym byte = "8 word"

text \<open>\<^verbatim>\<open>GUINT32_FROM_BE (*(guint32 *)filez_data)\<close>: the first four bytes, most
  significant first. The caller has checked that there are at least eight.\<close>

fun guint32_from_be :: "byte list \<Rightarrow> 32 word" where
  "guint32_from_be (b0 # b1 # b2 # b3 # rest) =
     push_bit 24 (ucast b0) OR push_bit 16 (ucast b1) OR push_bit 8 (ucast b2) OR ucast b3"
| "guint32_from_be bs = 0"

text \<open>
  What the store cannot compute by itself when it fetches from a remote:
  \<^item> \<open>remote_get_url\<close>: \<^verbatim>\<open>ostree_repo_remote_get_url\<close>;
  \<^item> \<open>load_uri\<close>: the bytes behind a URI (\<^verbatim>\<open>xdg_app_dir_load_uri\<close>, a file read or
    an HTTP GET);
  \<^item> \<open>commit_root\<close>: \<^verbatim>\<open>ostree_validate_structureof_commit\<close> and the checksum in
    field 6 of the commit;
  \<^item> \<open>dirtree_files\<close>: \<^verbatim>\<open>ostree_validate_structureof_dirtree\<close> and the files of the
    tree (name, checksum), in order;
  \<^item> \<open>inflate\<close>: the raw zlib decompressor spliced over the rest of the object.
\<close>

record remote_ops =
  remote_get_url :: "string \<Rightarrow> error + string"
  load_uri :: "string \<Rightarrow> error + byte list"
  commit_root :: "byte list \<Rightarrow> error + string"
  dirtree_files :: "byte list \<Rightarrow> error + (string \<times> string) list"
  inflate :: "byte list \<Rightarrow> error + byte list"

definition xdg_app_dir_fetch_remote_object ::
  "remote_ops \<Rightarrow> string \<Rightarrow> string \<Rightarrow> string \<Rightarrow> error + byte list" where
  "xdg_app_dir_fetch_remote_object ops remote_name checksum type =
     (case remote_get_url ops remote_name of
        Inl e \<Rightarrow> Inl e
      | Inr base_url \<Rightarrow>
          (let part1 = take 2 checksum;
               part2 = drop 2 checksum @ ''.'' @ type;
               object_url = base_url @ ''/objects/'' @ part1 @ ''/'' @ part2
           in load_uri ops object_url))"

text \<open>The loop over the files of the root tree: the checksum of the first file named
  \<^verbatim>\<open>metadata\<close>.\<close>

fun find_metadata :: "(string \<times> string) list \<Rightarrow> string option" where
  "find_metadata [] = None"
| "find_metadata ((filename, csum) # files) =
     (if filename \<noteq> ''metadata'' then find_metadata files else Some csum)"

text \<open>The end of \<^verbatim>\<open>xdg_app_dir_fetch_metadata\<close>, from \<^verbatim>\<open>g_bytes_get_data\<close> on:
  \<^verbatim>\<open>archive_header_size\<close> is a \<^verbatim>\<open>guint32\<close>, and adding \<^verbatim>\<open>4 + 4\<close> to it wraps.\<close>

definition filez_payload :: "(byte list \<Rightarrow> error + byte list) \<Rightarrow> byte list \<Rightarrow> error + byte list" where
  "filez_payload decompress filez_data =
     (let filez_size = length filez_data in
      if filez_size < 8 then Inl G_IO_ERROR_FAILED
      else
        (let archive_header_size = guint32_from_be filez_data + (4 + 4) in
         if unat archive_header_size > filez_size then Inl G_IO_ERROR_FAILED
         else decompress (drop (unat archive_header_size) filez_data)))"

definition xdg_app_dir_fetch_metadata :: "remote_ops \<Rightarrow> string \<Rightarrow> string \<Rightarrow> error + byte list" where
  "xdg_app_dir_fetch_metadata ops remote_name commit =
     (case xdg_app_dir_fetch_remote_object ops remote_name commit ''commit'' of
        Inl e \<Rightarrow> Inl e
      | Inr commit_bytes \<Rightarrow>
     (case commit_root ops commit_bytes of
        Inl e \<Rightarrow> Inl e
      | Inr root_checksum \<Rightarrow>
     (case xdg_app_dir_fetch_remote_object ops remote_name root_checksum ''dirtree'' of
        Inl e \<Rightarrow> Inl e
      | Inr root_bytes \<Rightarrow>
     (case dirtree_files ops root_bytes of
        Inl e \<Rightarrow> Inl e
      | Inr files \<Rightarrow>
     (case find_metadata files of
        None \<Rightarrow> Inl G_IO_ERROR_NOT_FOUND
      | Some file_checksum \<Rightarrow>
     (case xdg_app_dir_fetch_remote_object ops remote_name file_checksum ''filez'' of
        Inl e \<Rightarrow> Inl e
      | Inr filez_bytes \<Rightarrow> filez_payload (inflate ops) filez_bytes))))))"

subsection \<open>The directory tree under the base directory\<close>

text \<open>
  The files below the store's base directory are a tree. A directory holds its entries
  in the order in which an enumeration returns them; \<open>Special\<close> stands for every
  other file type (fifo, socket, device). A \<^verbatim>\<open>GFile\<close> below the base directory is the
  list of its path components. Symbolic links are never followed on the way to a
  file: the store looks at its own directories, which it creates itself. Permissions
  and transient I/O errors are not part of the model: an operation fails only for the
  reasons the tree shows (a missing entry, an entry of the wrong type, a directory that
  is not empty).
\<close>

datatype node =
    Directory "(string \<times> node) list"
  | Regular string
  | Symlink string
  | Special

type_synonym dirents = "(string \<times> node) list"

type_synonym gfile = "string list"

definition g_file_get_child :: "gfile \<Rightarrow> string \<Rightarrow> gfile" where
  "g_file_get_child dir name = dir @ [name]"

text \<open>\<^verbatim>\<open>g_strsplit (s, "/", -1)\<close>: the pieces between the slashes; the empty string has
  no piece.\<close>

fun split_slash :: "string \<Rightarrow> string list" where
  "split_slash [] = [[]]"
| "split_slash (c # cs) =
     (if c = CHR ''/'' then [] # split_slash cs
      else (case split_slash cs of
              [] \<Rightarrow> [[c]]
            | piece # pieces \<Rightarrow> (c # piece) # pieces))"

definition g_strsplit_slash :: "string \<Rightarrow> string list" where
  "g_strsplit_slash s = (if s = [] then [] else split_slash s)"

text \<open>A relative path is resolved component by component; the refs and file names the
  store passes have no empty, \<^verbatim>\<open>.\<close> or \<^verbatim>\<open>..\<close> component.\<close>

definition g_file_resolve_relative_path :: "gfile \<Rightarrow> string \<Rightarrow> gfile" where
  "g_file_resolve_relative_path dir rel = dir @ g_strsplit_slash rel"

text \<open>\<^verbatim>\<open>lstat\<close>: the node a path names, or why there is none.\<close>

fun lstat :: "node \<Rightarrow> gfile \<Rightarrow> error + node" where
  "lstat n [] = Inr n"
| "lstat (Directory es) (x # p) =
     (case map_of es x of
        None \<Rightarrow> Inl G_IO_ERROR_NOT_FOUND
      | Some c \<Rightarrow> lstat c p)"
| "lstat n (x # p) = Inl G_IO_ERROR_NOT_DIRECTORY"

definition g_file_query_exists :: "node \<Rightarrow> gfile \<Rightarrow> bool" where
  "g_file_query_exists root file = (case lstat root file of Inl e \<Rightarrow> False | Inr n \<Rightarrow> True)"

text \<open>Writing the tree: \<open>put_at root file (Some n)\<close> makes \<open>n\<close> the entry \<open>file\<close> of
  its parent directory (in the place of an entry of that name, or as a new last entry),
  \<open>put_at root file None\<close> removes the entry. It is used where the parent is known to be
  a directory.\<close>

fun put_at :: "node \<Rightarrow> gfile \<Rightarrow> node option \<Rightarrow> node" where
  "put_at n [] v = n"
| "put_at (Directory es) [x] v =
     Directory (case v of None \<Rightarrow> AList.delete x es | Some c \<Rightarrow> AList.update x c es)"
| "put_at (Directory es) (x # y # p) v =
     (case map_of es x of
        None \<Rightarrow> Directory es
      | Some c \<Rightarrow> Directory (AList.update x (put_at c (y # p) v) es))"
| "put_at n (x # p) v = n"

text \<open>\<^verbatim>\<open>g_file_make_symbolic_link\<close>: GIO refuses an empty target; \<^verbatim>\<open>symlink(2)\<close> fails
  when the name is taken or the directory is not there.\<close>

definition g_file_make_symbolic_link :: "node \<Rightarrow> gfile \<Rightarrow> string \<Rightarrow> error + node" where
  "g_file_make_symbolic_link root file symlink_value =
     (if symlink_value = [] then Inl G_IO_ERROR_INVALID_ARGUMENT
      else if file = [] then Inl G_IO_ERROR_EXISTS
      else
        (case lstat root (butlast file) of
           Inl e \<Rightarrow> Inl e
         | Inr (Directory es) \<Rightarrow>
             (case map_of es (last file) of
                Some c \<Rightarrow> Inl G_IO_ERROR_EXISTS
              | None \<Rightarrow> Inr (put_at root file (Some (Symlink symlink_value))))
         | Inr other \<Rightarrow> Inl G_IO_ERROR_NOT_DIRECTORY))"

text \<open>\<^verbatim>\<open>gs_file_rename\<close> is \<^verbatim>\<open>rename(2)\<close>: the source replaces a target that is not a
  directory; a directory replaces only an empty directory; nothing that is not a
  directory replaces a directory; a directory does not move below itself.\<close>

definition is_prefix :: "'a list \<Rightarrow> 'a list \<Rightarrow> bool" where
  "is_prefix p q = (take (length p) q = p)"

definition may_replace :: "node \<Rightarrow> node option \<Rightarrow> error option" where
  "may_replace src old =
     (case old of
        None \<Rightarrow> None
      | Some (Directory es) \<Rightarrow>
          (case src of
             Directory es' \<Rightarrow> if es = [] then None else Some G_IO_ERROR_NOT_EMPTY
           | other \<Rightarrow> Some G_IO_ERROR_IS_DIRECTORY)
      | Some other \<Rightarrow>
          (case src of
             Directory es' \<Rightarrow> Some G_IO_ERROR_NOT_DIRECTORY
           | other' \<Rightarrow> None))"

definition gs_file_rename :: "node \<Rightarrow> gfile \<Rightarrow> gfile \<Rightarrow> error + node" where
  "gs_file_rename root from to =
     (if from = [] \<or> to = [] then Inl G_IO_ERROR_FAILED
      else
        (case lstat root from of
           Inl e \<Rightarrow> Inl e
         | Inr src \<Rightarrow>
        (case lstat root (butlast to) of
           Inl e \<Rightarrow> Inl e
         | Inr (Directory es) \<Rightarrow>
             if from = to then Inr root
             else if is_prefix from to then Inl G_IO_ERROR_INVALID_ARGUMENT
             else
               (case may_replace src (map_of es (last to)) of
                  Some e \<Rightarrow> Inl e
                | None \<Rightarrow> Inr (put_at (put_at root from None) to (Some src)))
         | Inr other \<Rightarrow> Inl G_IO_ERROR_NOT_DIRECTORY)))"

text \<open>\<^verbatim>\<open>g_file_delete\<close>: \<^verbatim>\<open>unlink\<close>, or \<^verbatim>\<open>rmdir\<close> for a directory, which must be empty.\<close>

definition g_file_delete :: "node \<Rightarrow> gfile \<Rightarrow> error + node" where
  "g_file_delete root file =
     (if file = [] then Inl G_IO_ERROR_FAILED
      else
        (case lstat root file of
           Inl e \<Rightarrow> Inl e
         | Inr (Directory es) \<Rightarrow>
             if es = [] then Inr (put_at root file None) else Inl G_IO_ERROR_NOT_EMPTY
         | Inr other \<Rightarrow> Inr (put_at root file None)))"

subsection \<open>The store\<close>

text \<open>
  The object store is opaque to this file. Of an opened \<^verbatim>\<open>OstreeRepo\<close> the model keeps
  the commits it holds (by checksum, each with the entries of its root directory), the
  revisions its refs resolve to, and its config key file.
\<close>

record ostree_repo =
  commits :: "string \<Rightarrow> dirents option"
  revs :: "string \<Rightarrow> string option"
  config :: "key_file option"

text \<open>\<^verbatim>\<open>struct XdgAppDir\<close>: \<open>basedir\<close> is the tree below the base directory (an empty
  directory while the base directory does not exist), \<open>repo\<close> is \<^verbatim>\<open>self->repo\<close>.\<close>

record xdg_app_dir =
  user :: bool
  basedir :: node
  repo :: "ostree_repo option"

definition xdg_app_dir_get_deploy_dir :: "string \<Rightarrow> gfile" where
  "xdg_app_dir_get_deploy_dir ref = g_file_resolve_relative_path [] ref"

definition xdg_app_dir_get_removed_dir :: gfile where
  "xdg_app_dir_get_removed_dir = g_file_get_child [] ''.removed''"

subsection \<open>The active link\<close>

definition xdg_app_dir_read_active :: "xdg_app_dir \<Rightarrow> string \<Rightarrow> string option" where
  "xdg_app_dir_read_active self ref =
     (let deploy_base = xdg_app_dir_get_deploy_dir ref;
          active_link = g_file_get_child deploy_base ''active''
      in case lstat (basedir self) active_link of
           Inl e \<Rightarrow> None
         | Inr (Symlink target) \<Rightarrow> Some target
         | Inr other \<Rightarrow> None)"

text \<open>\<^verbatim>\<open>gs_fileutil_gen_tmp_name\<close>: the prefix, eight random letters and digits, the
  suffix. The random part is an argument of every function that draws one.\<close>

definition gs_fileutil_gen_tmp_name :: "string \<Rightarrow> string \<Rightarrow> string \<Rightarrow> string" where
  "gs_fileutil_gen_tmp_name prefix rnd suffix = prefix @ rnd @ suffix"

definition xdg_app_dir_set_active ::
  "string \<Rightarrow> xdg_app_dir \<Rightarrow> string \<Rightarrow> string option \<Rightarrow> (error + unit) \<times> xdg_app_dir" where
  "xdg_app_dir_set_active rnd self ref checksum =
     (let deploy_base = xdg_app_dir_get_deploy_dir ref;
          active_link = g_file_get_child deploy_base ''active''
      in case checksum of
           Some c \<Rightarrow>
             (let tmpname = gs_fileutil_gen_tmp_name ''.active-'' rnd [];
                  active_tmp_link = g_file_get_child deploy_base tmpname
              in case g_file_make_symbolic_link (basedir self) active_tmp_link c of
                   Inl e \<Rightarrow> (Inl e, self)
                 | Inr root1 \<Rightarrow>
                     (case gs_file_rename root1 active_tmp_link active_link of
                        Inl e \<Rightarrow> (Inl e, self\<lparr>basedir := root1\<rparr>)
                      | Inr root2 \<Rightarrow> (Inr (), self\<lparr>basedir := root2\<rparr>)))
         | None \<Rightarrow>
             (case g_file_delete (basedir self) active_link of
                Inl my_error \<Rightarrow>
                  if my_error \<noteq> G_IO_ERROR_NOT_FOUND then (Inl my_error, self)
                  else (Inr (), self)
              | Inr root1 \<Rightarrow> (Inr (), self\<lparr>basedir := root1\<rparr>)))"

subsection \<open>Listing the deployed checksums\<close>

text \<open>The loop of \<^verbatim>\<open>xdg_app_dir_list_deployed\<close> over the children of the deploy base:
  \<^verbatim>\<open>name[0] != '.'\<close> reads the terminating NUL of an empty name.\<close>

definition first_char_not_dot :: "string \<Rightarrow> bool" where
  "first_char_not_dot name = (case name of [] \<Rightarrow> True | c # cs \<Rightarrow> c \<noteq> CHR ''.'')"

fun list_deployed_loop :: "dirents \<Rightarrow> string list \<Rightarrow> string list" where
  "list_deployed_loop [] checksums = checksums"
| "list_deployed_loop ((name, Directory es) # children) checksums =
     (if first_char_not_dot name \<and> length name = 64
      then list_deployed_loop children (checksums @ [name])
      else list_deployed_loop children checksums)"
| "list_deployed_loop ((name, other) # children) checksums =
     list_deployed_loop children checksums"

definition xdg_app_dir_list_deployed :: "xdg_app_dir \<Rightarrow> string \<Rightarrow> error + string list" where
  "xdg_app_dir_list_deployed self ref =
     (let deploy_base = xdg_app_dir_get_deploy_dir ref
      in case lstat (basedir self) deploy_base of
           Inl my_error \<Rightarrow>
             if my_error = G_IO_ERROR_NOT_FOUND then Inr [] else Inl my_error
         | Inr (Directory children) \<Rightarrow> Inr (list_deployed_loop children [])
         | Inr other \<Rightarrow> Inl G_IO_ERROR_NOT_DIRECTORY)"

text \<open>An entry that \<^verbatim>\<open>xdg_app_dir_list_deployed\<close> reports: a directory whose name has
  64 characters, the first of them not a dot.\<close>

definition deployed_entry :: "string \<times> node \<Rightarrow> bool" where
  "deployed_entry e =
     (case e of
        (name, Directory es) \<Rightarrow> length name = 64 \<and> hd name \<noteq> CHR ''.''
      | _ \<Rightarrow> False)"

text \<open>The \<^verbatim>\<open>active\<close> entry of a ref is a symbolic link, or there is none.\<close>

definition active_link_or_missing :: "xdg_app_dir \<Rightarrow> string \<Rightarrow> bool" where
  "active_link_or_missing self ref =
     (case lstat (basedir self) (g_file_get_child (xdg_app_dir_get_deploy_dir ref) ''active'') of
        Inl e \<Rightarrow> e = G_IO_ERROR_NOT_FOUND
      | Inr (Symlink target) \<Rightarrow> True
      | Inr other \<Rightarrow> False)"

subsection \<open>Example data\<close>

text \<open>A ref, three names of 64 characters (two checksums and a name that is not
  hexadecimal) and a store in which the ref has them deployed, the first one active.
  \<open>ex_tree\<close> builds the tree from the entries of the deploy base of the ref and the
  other entries of the base directory.\<close>

definition ex_ref :: string where
  "ex_ref = ''app/org.test.Hello/x86_64/master''"

definition ex_sum_a :: string where
  "ex_sum_a = ''aaaaaaaaaaaaaaaaaaaaaaaaaaaaaaaaaaaaaaaaaaaaaaaaaaaaaaaaaaaaaaaa''"

definition ex_sum_b :: string where
  "ex_sum_b = ''bbbbbbbbbbbbbbbbbbbbbbbbbbbbbbbbbbbbbbbbbbbbbbbbbbbbbbbbbbbbbbbb''"

definition ex_name_z :: string where
  "ex_name_z = ''ZZZZZZZZZZZZZZZZZZZZZZZZZZZZZZZZZZZZZZZZZZZZZZZZZZZZZZZZZZZZZZZZ''"

definition ex_checkout :: node where
  "ex_checkout =
     Directory [(''files'', Directory [(''.ref'', Regular [])]), (''metadata'', Regular ''[Application]'')]"

definition ex_deploy_base :: dirents where
  "ex_deploy_base =
     [(''origin'', Regular ''test-repo''),
      (ex_sum_a, ex_checkout),
      (''.active-XXXXXXXX'', Symlink ex_sum_a),
      (ex_name_z, ex_checkout),
      (''active'', Symlink ex_sum_a),
      (ex_sum_b, ex_checkout),
      (''notes'', Directory [])]"

definition ex_tree :: "dirents \<Rightarrow> dirents \<Rightarrow> node" where
  "ex_tree deploy_base others =
     Directory ((''app'', Directory [(''org.test.Hello'', Directory [(''x86_64'',
       Directory [(''master'', Directory deploy_base)])])]) # others)"

definition ex_store :: xdg_app_dir where
  "ex_store = \<lparr>user = True, basedir = ex_tree ex_deploy_base [], repo = None\<rparr>"

subsection \<open>Listing the refs\<close>

definition ref_of_parts :: "string \<Rightarrow> string \<Rightarrow> string \<Rightarrow> string \<Rightarrow> string" where
  "ref_of_parts kind name arch branch = kind @ ''/'' @ name @ ''/'' @ arch @ ''/'' @ branch"

text \<open>\<^verbatim>\<open>g_ptr_array_sort\<close> with \<^verbatim>\<open>strvcmp\<close>: the strings in the order of \<^verbatim>\<open>strcmp\<close>,
  which compares bytes as unsigned numbers and puts a proper prefix first. That is the
  lexicographic order of \<open>string\<close> over the order of \<open>char\<close>.\<close>

definition g_ptr_array_sort_strvcmp :: "string list \<Rightarrow> string list" where
  "g_ptr_array_sort_strvcmp refs = sort refs"

text \<open>The inner loop of \<^verbatim>\<open>xdg_app_dir_list_refs_for_name\<close>, over the children of one
  arch directory.\<close>

fun list_refs_branches ::
  "string \<Rightarrow> string \<Rightarrow> string \<Rightarrow> dirents \<Rightarrow> string list \<Rightarrow> string list" where
  "list_refs_branches kind name arch [] refs = refs"
| "list_refs_branches kind name arch ((branch, Directory es) # children2) refs =
     list_refs_branches kind name arch children2 (refs @ [ref_of_parts kind name arch branch])"
| "list_refs_branches kind name arch ((branch, other) # children2) refs =
     list_refs_branches kind name arch children2 refs"

text \<open>Its outer loop, over the children of the name directory: a child that is not a
  directory, or is named \<^verbatim>\<open>data\<close>, is passed over (\<^emph>\<open>there used to be a data dir here,
  lets ignore it\<close>). The directory enumerated for a child is the child itself.\<close>

fun list_refs_archs :: "string \<Rightarrow> string \<Rightarrow> dirents \<Rightarrow> string list \<Rightarrow> string list" where
  "list_refs_archs kind name [] refs = refs"
| "list_refs_archs kind name ((arch, Directory children2) # children) refs =
     (if arch = ''data'' then list_refs_archs kind name children refs
      else list_refs_archs kind name children (list_refs_branches kind name arch children2 refs))"
| "list_refs_archs kind name ((arch, other) # children) refs =
     list_refs_archs kind name children refs"

definition xdg_app_dir_list_refs_for_name ::
  "xdg_app_dir \<Rightarrow> string \<Rightarrow> string \<Rightarrow> error + string list" where
  "xdg_app_dir_list_refs_for_name self kind name =
     (let base = g_file_get_child [] kind;
          dir = g_file_get_child base name
      in if \<not> g_file_query_exists (basedir self) dir then Inr []
         else
           (case lstat (basedir self) dir of
              Inr (Directory children) \<Rightarrow>
                Inr (g_ptr_array_sort_strvcmp (list_refs_archs kind name children []))
            | Inr other \<Rightarrow> Inl G_IO_ERROR_NOT_DIRECTORY
            | Inl e \<Rightarrow> Inl e))"

text \<open>The loop of \<^verbatim>\<open>xdg_app_dir_list_refs\<close> over the children of the kind directory:
  every directory is a name, whatever it is called.\<close>

fun list_refs_names ::
  "xdg_app_dir \<Rightarrow> string \<Rightarrow> dirents \<Rightarrow> string list \<Rightarrow> error + string list" where
  "list_refs_names self kind [] refs = Inr refs"
| "list_refs_names self kind ((name, Directory es) # children) refs =
     (case xdg_app_dir_list_refs_for_name self kind name of
        Inl e \<Rightarrow> Inl e
      | Inr sub_refs \<Rightarrow> list_refs_names self kind children (refs @ sub_refs))"
| "list_refs_names self kind ((name, other) # children) refs =
     list_refs_names self kind children refs"

definition xdg_app_dir_list_refs :: "xdg_app_dir \<Rightarrow> string \<Rightarrow> error + string list" where
  "xdg_app_dir_list_refs self kind =
     (let base = g_file_get_child [] kind
      in if \<not> g_file_query_exists (basedir self) base then Inr []
         else
           (case lstat (basedir self) base of
              Inr (Directory children) \<Rightarrow>
                (case list_refs_names self kind children [] of
                   Inl e \<Rightarrow> Inl e
                 | Inr refs \<Rightarrow> Inr (g_ptr_array_sort_strvcmp refs))
            | Inr other \<Rightarrow> Inl G_IO_ERROR_NOT_DIRECTORY
            | Inl e \<Rightarrow> Inl e))"

text \<open>A tree as a file system holds it: the names in a directory are distinct, not
  empty and without a slash.\<close>

definition valid_name :: "string \<Rightarrow> bool" where
  "valid_name name = (name \<noteq> [] \<and> CHR ''/'' \<notin> set name)"

fun wf_node :: "node \<Rightarrow> bool" where
  "wf_node (Directory es) =
     (distinct (map fst es) \<and> (\<forall>e \<in> set es. valid_name (fst e) \<and> wf_node (snd e)))"
| "wf_node other = True"

text \<open>The branches, the (arch, branch) pairs and the (name, arch, branch) triples that
  the three loops visit, as lists.\<close>

definition is_directory :: "node \<Rightarrow> bool" where
  "is_directory n = (case n of Directory es \<Rightarrow> True | _ \<Rightarrow> False)"

definition branch_names :: "dirents \<Rightarrow> string list" where
  "branch_names es = map fst (filter (\<lambda>e. is_directory (snd e)) es)"

definition arch_branches :: "dirents \<Rightarrow> (string \<times> string) list" where
  "arch_branches archs =
     concat (map (\<lambda>e. case snd e of
                         Directory bs \<Rightarrow>
                           if fst e = ''data'' then [] else map (Pair (fst e)) (branch_names bs)
                       | _ \<Rightarrow> []) archs)"

definition name_triples :: "dirents \<Rightarrow> (string \<times> string \<times> string) list" where
  "name_triples names =
     concat (map (\<lambda>e. case snd e of
                         Directory archs \<Rightarrow> map (Pair (fst e)) (arch_branches archs)
                       | _ \<Rightarrow> []) names)"

text \<open>A store with two applications, a legacy \<^verbatim>\<open>data\<close> directory beside the arch
  directories of one of them, and an application directory that is itself called
  \<^verbatim>\<open>data\<close>.\<close>

definition ex_refs_store :: xdg_app_dir where
  "ex_refs_store =
     \<lparr>user = False,
      basedir = Directory
        [(''repo'', Directory []),
         (''app'', Directory
            [(''org.test.Hello'', Directory
                [(''current'', Symlink ''x86_64/master''),
                 (''x86_64'', Directory [(''stable'', Directory []), (''master'', Directory [])]),
                 (''data'', Directory [(''old'', Directory [])])]),
             (''data'', Directory [(''x86_64'', Directory [(''stable'', Directory [])])]),
             (''README'', Regular ''applications''),
             (''org.gnome.Builder'', Directory
                [(''i386'', Directory [(''master'', Directory []), (''origin'', Regular ''gnome'')])])])],
      repo = None\<rparr>"

definition ex_data_store :: xdg_app_dir where
  "ex_data_store =
     \<lparr>user = False,
      basedir = Directory
        [(''app'', Directory
            [(''data'', Directory [(''x86_64'', Directory [(''stable'', Directory [])])])])],
      repo = None\<rparr>"

subsection \<open>Opening the object store\<close>

text \<open>
  What a call of the store depends on besides the tree and its own fields:
  \<^item> \<open>repo_created\<close>, \<open>repo_opened\<close>: the results of \<^verbatim>\<open>ostree_repo_create\<close> and
    \<^verbatim>\<open>ostree_repo_open\<close> on \<^verbatim>\<open><base>/repo\<close>;
  \<^item> \<open>pulled\<close>: the result of \<^verbatim>\<open>ostree_repo_pull\<close> of one commit from a remote, the
    repository with that commit or an error;
  \<^item> \<open>rnd_active\<close>, \<open>rnd_removed\<close>: the random parts of the two temporary names;
  \<^item> \<open>ref_locked\<close>: whether another process holds a lock on the \<^verbatim>\<open>files/.ref\<close> of the
    checkout that is being removed (\<^verbatim>\<open>fcntl (F_GETLK)\<close> reports a lock).
\<close>

record outside =
  repo_created :: "error + ostree_repo"
  repo_opened :: "error + ostree_repo"
  pulled :: "ostree_repo \<Rightarrow> string \<Rightarrow> string \<Rightarrow> error + ostree_repo"
  rnd_active :: string
  rnd_removed :: string
  ref_locked :: bool

text \<open>\<^verbatim>\<open>gs_shutil_rm_rf\<close> removes the entry with everything below it; nothing to remove
  is not an error.\<close>

definition gs_shutil_rm_rf :: "node \<Rightarrow> gfile \<Rightarrow> node" where
  "gs_shutil_rm_rf root file = put_at root file None"

text \<open>\<^verbatim>\<open>gs_file_ensure_directory (dir, TRUE)\<close>: \<^verbatim>\<open>mkdir\<close>, after the missing parents;
  a name that is taken counts as done (\<^verbatim>\<open>G_IO_ERROR_EXISTS\<close> is cleared), whatever
  has it; a parent that is not a directory is an error.\<close>

fun gs_file_ensure_directory :: "node \<Rightarrow> gfile \<Rightarrow> error + node" where
  "gs_file_ensure_directory n [] = Inr n"
| "gs_file_ensure_directory (Directory es) (x # p) =
     (case gs_file_ensure_directory (case map_of es x of None \<Rightarrow> Directory [] | Some c \<Rightarrow> c) p of
        Inl e \<Rightarrow> Inl e
      | Inr c' \<Rightarrow> Inr (Directory (AList.update x c' es)))"
| "gs_file_ensure_directory n (x # p) = Inl G_IO_ERROR_NOT_DIRECTORY"

text \<open>\<^verbatim>\<open>xdg_app_dir_ensure_path\<close> has nothing to do in the model, where the base
  directory is the root of the tree. The directory that \<^verbatim>\<open>ostree_repo_create\<close> fills is
  kept empty: the objects in it are those of \<open>commits\<close>.\<close>

definition xdg_app_dir_ensure_repo :: "outside \<Rightarrow> xdg_app_dir \<Rightarrow> (error + unit) \<times> xdg_app_dir" where
  "xdg_app_dir_ensure_repo w self =
     (case repo self of
        Some r \<Rightarrow> (Inr (), self)
      | None \<Rightarrow>
          (let repodir = g_file_get_child [] ''repo''
           in if \<not> g_file_query_exists (basedir self) repodir then
                (case repo_created w of
                   Inl e \<Rightarrow> (Inl e, self\<lparr>basedir := gs_shutil_rm_rf (basedir self) repodir\<rparr>)
                 | Inr r \<Rightarrow>
                     (Inr (), self\<lparr>basedir := put_at (basedir self) repodir (Some (Directory [])),
                                   repo := Some r\<rparr>))
              else
                (case repo_opened w of
                   Inl e \<Rightarrow> (Inl e, self)
                 | Inr r \<Rightarrow> (Inr (), self\<lparr>repo := Some r\<rparr>))))"

subsection \<open>Undeploy\<close>

text \<open>\<^verbatim>\<open>dir_is_locked\<close>: the lock can be asked for only when \<^verbatim>\<open>files/.ref\<close> opens.\<close>

definition dir_is_locked :: "outside \<Rightarrow> node \<Rightarrow> gfile \<Rightarrow> bool" where
  "dir_is_locked w root dir =
     (case lstat root (g_file_resolve_relative_path dir ''files/.ref'') of
        Inr (Regular contents) \<Rightarrow> ref_locked w
      | _ \<Rightarrow> False)"

text \<open>The loop that picks \<^verbatim>\<open>some_deployment\<close>: the first listed checksum that is not the
  one being removed, \<^verbatim>\<open>NULL\<close> when there is none.\<close>

fun some_other_deployment :: "string list \<Rightarrow> string \<Rightarrow> string option" where
  "some_other_deployment [] checksum = None"
| "some_other_deployment (d # deployed_checksums) checksum =
     (if d = checksum then some_other_deployment deployed_checksums checksum else Some d)"

text \<open>The block of \<^verbatim>\<open>xdg_app_dir_undeploy\<close> that repoints \<^verbatim>\<open>active\<close> when the
  checksum being removed is the active one.\<close>

definition undeploy_repoint_active ::
  "outside \<Rightarrow> xdg_app_dir \<Rightarrow> string \<Rightarrow> string \<Rightarrow> (error + unit) \<times> xdg_app_dir" where
  "undeploy_repoint_active w self ref checksum =
     (let active = xdg_app_dir_read_active self ref
      in if active \<noteq> None \<and> active = Some checksum then
           (case xdg_app_dir_list_deployed self ref of
              Inl e \<Rightarrow> (Inl e, self)
            | Inr deployed_checksums \<Rightarrow>
                (let some_deployment = some_other_deployment deployed_checksums checksum
                 in xdg_app_dir_set_active (rnd_active w) self ref some_deployment))
         else (Inr (), self))"

definition xdg_app_dir_undeploy ::
  "outside \<Rightarrow> xdg_app_dir \<Rightarrow> string \<Rightarrow> string \<Rightarrow> bool \<Rightarrow> (error + unit) \<times> xdg_app_dir" where
  "xdg_app_dir_undeploy w self ref checksum force_remove =
     (let deploy_base = xdg_app_dir_get_deploy_dir ref;
          checkoutdir = g_file_get_child deploy_base checksum
      in if \<not> g_file_query_exists (basedir self) checkoutdir
         then (Inl XDG_APP_DIR_ERROR_ALREADY_UNDEPLOYED, self)
         else
           (case xdg_app_dir_ensure_repo w self of
              (Inl e, self1) \<Rightarrow> (Inl e, self1)
            | (Inr u, self1) \<Rightarrow>
           (case undeploy_repoint_active w self1 ref checksum of
              (Inl e, self2) \<Rightarrow> (Inl e, self2)
            | (Inr u, self2) \<Rightarrow>
           (let removed_dir = xdg_app_dir_get_removed_dir
            in case gs_file_ensure_directory (basedir self2) removed_dir of
                 Inl e \<Rightarrow> (Inl e, self2)
               | Inr root3 \<Rightarrow>
                   (let tmpname = gs_fileutil_gen_tmp_name [] (rnd_removed w) checksum;
                        removed_subdir = g_file_get_child removed_dir tmpname
                    in case gs_file_rename root3 checkoutdir removed_subdir of
                         Inl e \<Rightarrow> (Inl e, self2\<lparr>basedir := root3\<rparr>)
                       | Inr root4 \<Rightarrow>
                           if force_remove \<or> \<not> dir_is_locked w root4 removed_subdir
                           then (Inr (), self2\<lparr>basedir := gs_shutil_rm_rf root4 removed_subdir\<rparr>)
                           else (Inr (), self2\<lparr>basedir := root4\<rparr>))))))"

text \<open>The refs and checksums of the data model: a ref has four parts that are not
  empty, the first of them \<^verbatim>\<open>app\<close> or \<^verbatim>\<open>runtime\<close>; a checksum is 64 lower-case
  hexadecimal digits.\<close>

definition is_ref :: "string \<Rightarrow> bool" where
  "is_ref ref =
     (case g_strsplit_slash ref of
        [kind, name, arch, branch] \<Rightarrow>
          (kind = ''app'' \<or> kind = ''runtime'') \<and> name \<noteq> [] \<and> arch \<noteq> [] \<and> branch \<noteq> []
      | _ \<Rightarrow> False)"

definition is_checksum :: "string \<Rightarrow> bool" where
  "is_checksum c = (length c = 64 \<and> (\<forall>ch \<in> set c. ch \<in> set ''0123456789abcdef''))"

text \<open>An object store without commits, and an outside in which the store opens, no pull
  succeeds and nothing is locked.\<close>

definition ex_repo :: ostree_repo where
  "ex_repo = \<lparr>commits = (\<lambda>c. None), revs = (\<lambda>r. None), config = Some []\<rparr>"

definition ex_outside :: outside where
  "ex_outside =
     \<lparr>repo_created = Inr ex_repo, repo_opened = Inr ex_repo,
      pulled = (\<lambda>r remote c. Inl OSTREE_ERROR),
      rnd_active = ''ABCDEFGH'', rnd_removed = ''IJKLMNOP'', ref_locked = False\<rparr>"

subsection \<open>Rewriting the exported launcher files\<close>

text \<open>
  What the rewriter takes from outside this file:
  \<^item> \<open>has_name_prefix\<close>: \<^verbatim>\<open>xdg_app_has_name_prefix\<close> of \<^verbatim>\<open>xdg-app-utils.c\<close>, applied
    to a file name and the application name;
  \<^item> \<open>bindir\<close>: the compile-time path \<^verbatim>\<open>XDG_APP_BINDIR\<close>;
  \<^item> \<open>shell_parse_argv\<close>: \<^verbatim>\<open>g_shell_parse_argv\<close>, the tokens of a command line or
    \<open>None\<close> when it does not parse;
  \<^item> \<open>key_file_load\<close>: \<^verbatim>\<open>g_key_file_load_from_data\<close> with
    \<^verbatim>\<open>G_KEY_FILE_KEEP_TRANSLATIONS\<close>;
  \<^item> \<open>key_file_to_data\<close>: \<^verbatim>\<open>g_key_file_to_data\<close>.
\<close>

record export_ops =
  has_name_prefix :: "string \<Rightarrow> string \<Rightarrow> bool"
  bindir :: string
  shell_parse_argv :: "string \<Rightarrow> string list option"
  key_file_load :: "string \<Rightarrow> error + key_file"
  key_file_to_data :: "key_file \<Rightarrow> string"

definition g_ascii_isalnum :: "char \<Rightarrow> bool" where
  "g_ascii_isalnum c =
     ((CHR ''0'' \<le> c \<and> c \<le> CHR ''9'') \<or> (CHR ''A'' \<le> c \<and> c \<le> CHR ''Z'') \<or>
      (CHR ''a'' \<le> c \<and> c \<le> CHR ''z''))"

text \<open>\<^verbatim>\<open>need_quotes\<close>: the loop stops before the terminating NUL, so \<^verbatim>\<open>strchr\<close> finds
  the character exactly when it is one of the eight.\<close>

fun need_quotes :: "string \<Rightarrow> bool" where
  "need_quotes [] = False"
| "need_quotes (p # str) =
     (if \<not> g_ascii_isalnum p \<and> p \<notin> set ''-_%.=:/@'' then True else need_quotes str)"

text \<open>\<^verbatim>\<open>g_shell_quote\<close>: the string between single quotes, each single quote inside
  it written as a closing quote, an escaped quote and an opening quote.\<close>

fun shell_quote_chars :: "string \<Rightarrow> string" where
  "shell_quote_chars [] = []"
| "shell_quote_chars (p # str) =
     (if p = CHR 0x27 then [CHR 0x27, CHR 0x5C, CHR 0x27, CHR 0x27] else [p])
       @ shell_quote_chars str"

definition g_shell_quote :: "string \<Rightarrow> string" where
  "g_shell_quote unquoted_string = [CHR 0x27] @ shell_quote_chars unquoted_string @ [CHR 0x27]"

definition maybe_quote :: "string \<Rightarrow> string" where
  "maybe_quote str = (if need_quotes str then g_shell_quote str else str)"

definition g_str_has_suffix :: "string \<Rightarrow> string \<Rightarrow> bool" where
  "g_str_has_suffix str suffix =
     (length suffix \<le> length str \<and> drop (length str - length suffix) str = suffix)"

text \<open>Changing a key file: \<^verbatim>\<open>g_key_file_remove_key\<close> and \<^verbatim>\<open>g_key_file_set_string\<close>
  work on the group of the given name; a key that is set keeps its place, a new key
  comes last in its group, a new group comes last in the file.\<close>

definition g_key_file_get_groups :: "key_file \<Rightarrow> string list" where
  "g_key_file_get_groups kf = map fst kf"

fun remove_key_lines :: "kf_line list \<Rightarrow> string \<Rightarrow> kf_line list" where
  "remove_key_lines [] key = []"
| "remove_key_lines (KeyValue k v # ls) key =
     (if k = key then remove_key_lines ls key else KeyValue k v # remove_key_lines ls key)"
| "remove_key_lines (CommentLine c # ls) key = CommentLine c # remove_key_lines ls key"

fun set_key_line :: "kf_line list \<Rightarrow> string \<Rightarrow> string \<Rightarrow> kf_line list" where
  "set_key_line [] key v = [KeyValue key v]"
| "set_key_line (KeyValue k v' # ls) key v =
     (if k = key then KeyValue k v # ls else KeyValue k v' # set_key_line ls key v)"
| "set_key_line (CommentLine c # ls) key v = CommentLine c # set_key_line ls key v"

fun map_group :: "(kf_line list \<Rightarrow> kf_line list) \<Rightarrow> string \<Rightarrow> key_file \<Rightarrow> key_file" where
  "map_group f group_name [] = []"
| "map_group f group_name ((g, ls) # kf) =
     (if g = group_name then (g, f ls) # kf else (g, ls) # map_group f group_name kf)"

definition g_key_file_remove_key :: "key_file \<Rightarrow> string \<Rightarrow> string \<Rightarrow> key_file" where
  "g_key_file_remove_key kf group_name key = map_group (\<lambda>ls. remove_key_lines ls key) group_name kf"

definition g_key_file_set_string :: "key_file \<Rightarrow> string \<Rightarrow> string \<Rightarrow> string \<Rightarrow> key_file" where
  "g_key_file_set_string kf group_name key v =
     (if group_name \<in> set (map fst kf) then map_group (\<lambda>ls. set_key_line ls key v) group_name kf
      else kf @ [(group_name, [KeyValue key v])])"

text \<open>The loop that appends the arguments after the first to \<^verbatim>\<open>new_exec\<close>.\<close>

fun append_args :: "string \<Rightarrow> string list \<Rightarrow> string" where
  "append_args new_exec [] = new_exec"
| "append_args new_exec (arg # old_argv) =
     append_args (new_exec @ '' '' @ maybe_quote arg) old_argv"

text \<open>The new \<^verbatim>\<open>Exec\<close> line of one group, from the old one (\<open>None\<close> when the group has
  no \<^verbatim>\<open>Exec\<close> that can be read).\<close>

definition new_exec_line ::
  "export_ops \<Rightarrow> string \<Rightarrow> string \<Rightarrow> string \<Rightarrow> string option \<Rightarrow> string" where
  "new_exec_line ops escaped_app escaped_branch escaped_arch old_exec =
     (let new_exec = bindir ops @ ''/xdg-app run --branch='' @ escaped_branch
                       @ '' --arch='' @ escaped_arch
      in case (case old_exec of None \<Rightarrow> None | Some e \<Rightarrow> shell_parse_argv ops e) of
           Some (argv0 # old_argv) \<Rightarrow>
             append_args (new_exec @ '' --command='' @ maybe_quote argv0 @ '' '' @ escaped_app)
               old_argv
         | _ \<Rightarrow> new_exec @ '' '' @ escaped_app)"

text \<open>The loop of \<^verbatim>\<open>export_desktop_file\<close> over the groups of the key file.\<close>

fun rewrite_groups ::
  "export_ops \<Rightarrow> string \<Rightarrow> string \<Rightarrow> string \<Rightarrow> string list \<Rightarrow> key_file \<Rightarrow> key_file" where
  "rewrite_groups ops escaped_app escaped_branch escaped_arch [] keyfile = keyfile"
| "rewrite_groups ops escaped_app escaped_branch escaped_arch (grp # grps) keyfile =
     (let keyfile1 = g_key_file_remove_key keyfile grp ''TryExec'';
          keyfile2 = g_key_file_remove_key keyfile1 grp ''X-GNOME-Bugzilla-ExtraInfoScript'';
          old_exec = g_key_file_get_string keyfile2 grp ''Exec'';
          new_exec = new_exec_line ops escaped_app escaped_branch escaped_arch old_exec;
          keyfile3 = g_key_file_set_string keyfile2 grp ''Exec'' new_exec
      in rewrite_groups ops escaped_app escaped_branch escaped_arch grps keyfile3)"

text \<open>\<^verbatim>\<open>export_desktop_file\<close>. The argument \<open>entry\<close> is what the directory holds under
  \<open>name\<close> when the file is opened. The result is the new contents; the C function
  writes them to a temporary file of the same directory, which its caller renames
  over \<open>name\<close> at once.\<close>

definition export_desktop_file ::
  "export_ops \<Rightarrow> string \<Rightarrow> string \<Rightarrow> string \<Rightarrow> string \<Rightarrow> node option \<Rightarrow> error + string" where
  "export_desktop_file ops app branch arch name entry =
     (let escaped_app = maybe_quote app;
          escaped_branch = maybe_quote branch;
          escaped_arch = maybe_quote arch
      in case entry of
           None \<Rightarrow> Inl G_IO_ERROR_NOT_FOUND
         | Some (Regular contents) \<Rightarrow>
             (case key_file_load ops contents of
                Inl e \<Rightarrow> Inl e
              | Inr keyfile \<Rightarrow>
                  if g_str_has_suffix name ''.service'' \<and>
                     (let dbus_name = g_key_file_get_string keyfile ''D-BUS Service'' ''Name'';
                          expected_dbus_name = take (length name - length ''.service'') name
                      in dbus_name = None \<or> dbus_name \<noteq> Some expected_dbus_name)
                  then Inl G_IO_ERROR_FAILED
                  else Inr (key_file_to_data ops
                         (rewrite_groups ops escaped_app escaped_branch escaped_arch
                            (g_key_file_get_groups keyfile) keyfile)))
         | Some other \<Rightarrow> Inl G_IO_ERROR_FAILED)"

text \<open>
  The loop of \<^verbatim>\<open>rewrite_export_dir\<close> over the entries of one directory, in the order of
  the enumeration, with the names visited so far. The result is the outcome, the
  entries of the directory afterwards (at the point of failure, when it fails) and the
  warnings logged. An entry changes only when it is its turn, so the loop carries the
  entries still to come unchanged; the name of the temporary file, which the C code
  also adds to the visited names, is new and is none of theirs.
\<close>

definition warn_non_prefixed :: "string \<Rightarrow> string \<Rightarrow> string" where
  "warn_non_prefixed name app = ''Non-prefixed filename '' @ name @ '' in app '' @ app @ '', removing.''"

definition warn_unsupported :: "string \<Rightarrow> string" where
  "warn_unsupported name = ''Not exporting file '' @ name @ '' of unsupported type''"

fun rewrite_export_dir ::
  "export_ops \<Rightarrow> string \<Rightarrow> string \<Rightarrow> string \<Rightarrow> string list \<Rightarrow> dirents \<Rightarrow>
     (error + unit) \<times> dirents \<times> string list" where
  "rewrite_export_dir ops app branch arch visited [] = (Inr (), [], [])"
| "rewrite_export_dir ops app branch arch visited ((name, Directory sub) # rest) =
     (if name \<in> set visited then
        (case rewrite_export_dir ops app branch arch visited rest of
           (r, rest', warnings) \<Rightarrow> (r, (name, Directory sub) # rest', warnings))
      else
        (case rewrite_export_dir ops app branch arch [] sub of
           (Inl e, sub', warnings) \<Rightarrow> (Inl e, (name, Directory sub') # rest, warnings)
         | (Inr u, sub', warnings) \<Rightarrow>
             (case rewrite_export_dir ops app branch arch (name # visited) rest of
                (r, rest', warnings') \<Rightarrow>
                  (r, (name, Directory sub') # rest', warnings @ warnings'))))"
| "rewrite_export_dir ops app branch arch visited ((name, Regular contents) # rest) =
     (if name \<in> set visited then
        (case rewrite_export_dir ops app branch arch visited rest of
           (r, rest', warnings) \<Rightarrow> (r, (name, Regular contents) # rest', warnings))
      else
        (let prefixed = has_name_prefix ops name app;
             warnings = (if prefixed then [] else [warn_non_prefixed name app]);
             entry = (if prefixed then Some (Regular contents) else None);
             kept = (if prefixed then [(name, Regular contents)] else [])
         in if g_str_has_suffix name ''.desktop'' \<or> g_str_has_suffix name ''.service'' then
              (case export_desktop_file ops app branch arch name entry of
                 Inl e \<Rightarrow> (Inl e, kept @ rest, warnings)
               | Inr new_data \<Rightarrow>
                   (case rewrite_export_dir ops app branch arch (name # visited) rest of
                      (r, rest', warnings') \<Rightarrow>
                        (r, (name, Regular new_data) # rest', warnings @ warnings')))
            else
              (case rewrite_export_dir ops app branch arch (name # visited) rest of
                 (r, rest', warnings') \<Rightarrow> (r, kept @ rest', warnings @ warnings'))))"
| "rewrite_export_dir ops app branch arch visited ((name, other) # rest) =
     (if name \<in> set visited then
        (case rewrite_export_dir ops app branch arch visited rest of
           (r, rest', warnings) \<Rightarrow> (r, (name, other) # rest', warnings))
      else
        (case rewrite_export_dir ops app branch arch (name # visited) rest of
           (r, rest', warnings') \<Rightarrow> (r, rest', warn_unsupported name # warnings')))"

text \<open>\<^verbatim>\<open>xdg_app_rewrite_export_dir\<close>: the directory iterator opens only a directory.\<close>

definition xdg_app_rewrite_export_dir ::
  "export_ops \<Rightarrow> string \<Rightarrow> string \<Rightarrow> string \<Rightarrow> node \<Rightarrow> gfile \<Rightarrow> (error + unit) \<times> node" where
  "xdg_app_rewrite_export_dir ops app branch arch root source =
     (case lstat root source of
        Inl e \<Rightarrow> (Inl e, root)
      | Inr (Directory entries) \<Rightarrow>
          (case rewrite_export_dir ops app branch arch [] entries of
             (r, entries', warnings) \<Rightarrow> (r, put_at root source (Some (Directory entries'))))
      | Inr other \<Rightarrow> (Inl G_IO_ERROR_NOT_DIRECTORY, root))"

subsection \<open>Simple library functions for the examples\<close>

text \<open>
  The theorems below hold for every tokenizer, key-file parser and key-file printer.
  The examples run with simple ones that read the plain cases as GLib does: a command
  line without quotes, backslashes or comments is split at its blanks; a key file is
  a sequence of lines \<^verbatim>\<open>[group]\<close>, \<^verbatim>\<open>key=value\<close>, comment lines that begin with
  \<^verbatim>\<open>#\<close> and empty lines, without escapes and without blanks around the \<^verbatim>\<open>=\<close>. As in
  GLib, a parser that is not asked to keep comments drops the comment and empty lines,
  and a parser that is not asked to keep translations drops every key with a locale
  tag \<^verbatim>\<open>key[locale]\<close> whose locale is not one of the languages of the process.
\<close>

fun split_blanks :: "string \<Rightarrow> string \<Rightarrow> string list" where
  "split_blanks word [] = (if word = [] then [] else [word])"
| "split_blanks word (c # cs) =
     (if c = CHR '' '' then (if word = [] then [] else [word]) @ split_blanks [] cs
      else split_blanks (word @ [c]) cs)"

definition simple_shell_parse :: "string \<Rightarrow> string list option" where
  "simple_shell_parse command_line =
     (if \<exists>c \<in> set command_line. c \<in> set [CHR 0x22, CHR 0x27, CHR 0x5C, CHR ''#''] then None
      else (case split_blanks [] command_line of [] \<Rightarrow> None | argv \<Rightarrow> Some argv))"

fun split_lines :: "string \<Rightarrow> string \<Rightarrow> string list" where
  "split_lines line [] = (if line = [] then [] else [line])"
| "split_lines line (c # cs) =
     (if c = CHR 0x0A then line # split_lines [] cs else split_lines (line @ [c]) cs)"

text \<open>The locale tag of a key, if it has one.\<close>

definition key_locale :: "string \<Rightarrow> string option" where
  "key_locale key =
     (if key \<noteq> [] \<and> last key = CHR '']'' \<and> CHR ''['' \<in> set key
      then Some (rev (takeWhile (\<lambda>c. c \<noteq> CHR ''['') (tl (rev key))))
      else None)"

text \<open>One line of a key file, read into the groups so far (the last group is the
  current one). \<open>languages\<close> is \<open>None\<close> when translations are kept.\<close>

definition simple_parse_line ::
  "string list option \<Rightarrow> string \<Rightarrow> error + key_file \<Rightarrow> error + key_file" where
  "simple_parse_line languages line acc =
     (case acc of
        Inl e \<Rightarrow> Inl e
      | Inr kf \<Rightarrow>
          if line = [] \<or> hd line = CHR ''#'' then Inr kf
          else if hd line = CHR ''['' \<and> last line = CHR '']'' then
            (let group_name = butlast (tl line)
             in if group_name \<in> set (map fst kf) then Inl G_KEY_FILE_ERROR_PARSE
                else Inr (kf @ [(group_name, [])]))
          else if CHR ''='' \<in> set line \<and> kf \<noteq> [] then
            (let key = takeWhile (\<lambda>c. c \<noteq> CHR ''='') line;
                 v = tl (dropWhile (\<lambda>c. c \<noteq> CHR ''='') line)
             in if (case key_locale key of
                      None \<Rightarrow> True
                    | Some locale \<Rightarrow>
                        (case languages of None \<Rightarrow> True | Some ls \<Rightarrow> locale \<in> set ls))
                then Inr (butlast kf @ [(fst (last kf), set_key_line (snd (last kf)) key v)])
                else Inr kf)
          else Inl G_KEY_FILE_ERROR_PARSE)"

definition simple_key_file_load :: "string list option \<Rightarrow> string \<Rightarrow> error + key_file" where
  "simple_key_file_load languages contents =
     foldl (\<lambda>acc line. simple_parse_line languages line acc) (Inr []) (split_lines [] contents)"

definition kf_line_text :: "kf_line \<Rightarrow> string" where
  "kf_line_text l =
     (case l of KeyValue k v \<Rightarrow> k @ ''='' @ v @ [CHR 0x0A] | CommentLine c \<Rightarrow> c @ [CHR 0x0A])"

fun simple_key_file_to_data :: "key_file \<Rightarrow> string" where
  "simple_key_file_to_data [] = []"
| "simple_key_file_to_data ((g, ls) # kf) =
     ''['' @ g @ '']'' @ [CHR 0x0A] @ concat (map kf_line_text ls)
       @ (if kf = [] then [] else [CHR 0x0A] @ simple_key_file_to_data kf)"

text \<open>Modelled from the spec: \<^verbatim>\<open>xdg_app_has_name_prefix\<close> is defined in
  \<^verbatim>\<open>xdg-app-utils.c\<close>, which is not among the sources; the specification says that an
  exported file must be \<^emph>\<open>prefixed with\<close> the application name.\<close>

definition prefixed_with :: "string \<Rightarrow> string \<Rightarrow> bool" where
  "prefixed_with str name = (take (length name) str = name)"

definition ex_export_ops :: export_ops where
  "ex_export_ops =
     \<lparr>has_name_prefix = prefixed_with,
      bindir = ''/usr/bin'',
      shell_parse_argv = simple_shell_parse,
      key_file_load = simple_key_file_load None,
      key_file_to_data = simple_key_file_to_data\<rparr>"

text \<open>The desktop file of scenario B of the specification, and two service files.\<close>

definition ex_desktop_file :: string where
  "ex_desktop_file =
     ''[Desktop Entry]'' @ [CHR 0x0A] @ ''Name=Hello'' @ [CHR 0x0A] @ ''Name[de]=Hallo'' @ [CHR 0x0A]
       @ ''TryExec=gedit'' @ [CHR 0x0A] @ ''Exec=gedit %U'' @ [CHR 0x0A] @ [CHR 0x0A]
       @ ''[Desktop Action new]'' @ [CHR 0x0A] @ ''Name=New window'' @ [CHR 0x0A]"

definition ex_service_file :: "string \<Rightarrow> string" where
  "ex_service_file dbus_name =
     ''[D-BUS Service]'' @ [CHR 0x0A] @ ''Name='' @ dbus_name @ [CHR 0x0A]
       @ ''Exec=/app/bin/hello --service'' @ [CHR 0x0A]"

text \<open>The characters of the class \<^verbatim>\<open>[A-Za-z0-9_\-.%=:/@]\<close>.\<close>

definition plain_chars :: string where
  "plain_chars = ''ABCDEFGHIJKLMNOPQRSTUVWXYZabcdefghijklmnopqrstuvwxyz0123456789_-.%=:/@''"

text \<open>The key file that the desktop file holds.\<close>

definition ex_desktop_key_file :: key_file where
  "ex_desktop_key_file =
     [(''Desktop Entry'',
       [KeyValue ''Name'' ''Hello'', KeyValue ''Name[de]'' ''Hallo'',
        KeyValue ''TryExec'' ''gedit'', KeyValue ''Exec'' ''gedit %U'']),
      (''Desktop Action new'', [KeyValue ''Name'' ''New window''])]"

subsection \<open>Deploy\<close>

text \<open>\<^verbatim>\<open>g_file_load_contents\<close> and \<^verbatim>\<open>g_file_replace_contents\<close> on a regular file.\<close>

definition g_file_load_contents :: "node \<Rightarrow> gfile \<Rightarrow> error + string" where
  "g_file_load_contents root file =
     (case lstat root file of
        Inl e \<Rightarrow> Inl e
      | Inr (Regular contents) \<Rightarrow> Inr contents
      | Inr (Directory es) \<Rightarrow> Inl G_IO_ERROR_IS_DIRECTORY
      | Inr other \<Rightarrow> Inl G_IO_ERROR_FAILED)"

definition g_file_replace_contents :: "node \<Rightarrow> gfile \<Rightarrow> string \<Rightarrow> error + node" where
  "g_file_replace_contents root file contents =
     (if file = [] then Inl G_IO_ERROR_IS_DIRECTORY
      else
        (case lstat root (butlast file) of
           Inl e \<Rightarrow> Inl e
         | Inr (Directory es) \<Rightarrow>
             (case map_of es (last file) of
                Some (Directory es') \<Rightarrow> Inl G_IO_ERROR_IS_DIRECTORY
              | _ \<Rightarrow> Inr (put_at root file (Some (Regular contents))))
         | Inr other \<Rightarrow> Inl G_IO_ERROR_NOT_DIRECTORY))"

text \<open>\<^verbatim>\<open>xdg_app_dir_get_origin\<close>, called with no error to set: the contents of the
  \<^verbatim>\<open>origin\<close> file of the ref, or \<^verbatim>\<open>NULL\<close>.\<close>

definition xdg_app_dir_get_origin :: "xdg_app_dir \<Rightarrow> string \<Rightarrow> string option" where
  "xdg_app_dir_get_origin self ref =
     (let deploy_base = xdg_app_dir_get_deploy_dir ref
      in if \<not> g_file_query_exists (basedir self) deploy_base then None
         else
           (case g_file_load_contents (basedir self) (g_file_get_child deploy_base ''origin'') of
              Inl e \<Rightarrow> None
            | Inr repository \<Rightarrow> Some repository))"

text \<open>\<^verbatim>\<open>ostree_repo_checkout_tree\<close> with \<^verbatim>\<open>OSTREE_REPO_CHECKOUT_OVERWRITE_NONE\<close>: the
  destination is made as a new directory of its parent and filled with the tree.\<close>

definition ostree_repo_checkout_tree :: "node \<Rightarrow> gfile \<Rightarrow> dirents \<Rightarrow> error + node" where
  "ostree_repo_checkout_tree root destination tree =
     (if destination = [] then Inl G_IO_ERROR_EXISTS
      else
        (case lstat root (butlast destination) of
           Inl e \<Rightarrow> Inl e
         | Inr (Directory es) \<Rightarrow>
             (case map_of es (last destination) of
                Some c \<Rightarrow> Inl G_IO_ERROR_EXISTS
              | None \<Rightarrow> Inr (put_at root destination (Some (Directory tree))))
         | Inr other \<Rightarrow> Inl G_IO_ERROR_NOT_DIRECTORY))"

text \<open>The first part of \<^verbatim>\<open>xdg_app_dir_deploy\<close> after the store is open: the checksum
  to deploy. Without a checksum it is the revision that the ref resolves to, looked up
  under the origin when there is one; with a checksum that the store does not hold,
  the commit is pulled from the remote named in the \<^verbatim>\<open>origin\<close> file. The result has the
  object store as it is afterwards.\<close>

definition deploy_find_commit ::
  "outside \<Rightarrow> xdg_app_dir \<Rightarrow> ostree_repo \<Rightarrow> string \<Rightarrow> string option \<Rightarrow>
     (error + string) \<times> ostree_repo" where
  "deploy_find_commit w self r ref checksum =
     (let deploy_base = xdg_app_dir_get_deploy_dir ref
      in case checksum of
           None \<Rightarrow>
             (let origin = xdg_app_dir_get_origin self ref;
                  origin_and_ref = (case origin of Some remote \<Rightarrow> remote @ '':'' @ ref | None \<Rightarrow> ref)
              in case revs r origin_and_ref of
                   None \<Rightarrow> (Inl OSTREE_ERROR, r)
                 | Some resolved_ref \<Rightarrow> (Inr resolved_ref, r))
         | Some c \<Rightarrow>
             (case commits r c of
                Some root \<Rightarrow> (Inr c, r)
              | None \<Rightarrow>
                  (case g_file_load_contents (basedir self) (g_file_get_child deploy_base ''origin'') of
                     Inl e \<Rightarrow> (Inl e, r)
                   | Inr repository \<Rightarrow>
                       (case pulled w r repository c of
                          Inl e \<Rightarrow> (Inl e, r)
                        | Inr r' \<Rightarrow> (Inr c, r')))))"

text \<open>The second part, from \<^verbatim>\<open>checkoutdir = g_file_get_child (deploy_base, checksum)\<close>
  on. A ref with fewer than four parts makes the C code read past the end of
  \<^verbatim>\<open>ref_parts\<close>; the model stops there with an error.\<close>

definition deploy_checkout ::
  "outside \<Rightarrow> export_ops \<Rightarrow> xdg_app_dir \<Rightarrow> ostree_repo \<Rightarrow> string \<Rightarrow> string \<Rightarrow>
     (error + unit) \<times> xdg_app_dir" where
  "deploy_checkout w ops self r ref checksum =
     (let deploy_base = xdg_app_dir_get_deploy_dir ref;
          checkoutdir = g_file_get_child deploy_base checksum
      in if g_file_query_exists (basedir self) checkoutdir
         then (Inl XDG_APP_DIR_ERROR_ALREADY_DEPLOYED, self)
         else
           (case commits r checksum of
              None \<Rightarrow> (Inl OSTREE_ERROR, self)
            | Some root \<Rightarrow>
           (case ostree_repo_checkout_tree (basedir self) checkoutdir root of
              Inl e \<Rightarrow> (Inl e, self)
            | Inr root3 \<Rightarrow>
           (case g_file_replace_contents root3
                   (g_file_resolve_relative_path checkoutdir ''files/.ref'') [] of
              Inl e \<Rightarrow> (Inl e, self\<lparr>basedir := root3\<rparr>)
            | Inr root4 \<Rightarrow>
           (let export = g_file_get_child checkoutdir ''export''
            in case (if g_file_query_exists root4 export then
                       (let ref_parts = g_strsplit_slash ref
                        in if length ref_parts < 4 then (Inl G_IO_ERROR_FAILED, root4)
                           else xdg_app_rewrite_export_dir ops
                                  (ref_parts ! 1) (ref_parts ! 3) (ref_parts ! 2) root4 export)
                     else (Inr (), root4)) of
                 (Inl e, root5) \<Rightarrow> (Inl e, self\<lparr>basedir := root5\<rparr>)
               | (Inr u, root5) \<Rightarrow>
                   xdg_app_dir_set_active (rnd_active w) (self\<lparr>basedir := root5\<rparr>) ref
                     (Some checksum))))))"

definition xdg_app_dir_deploy ::
  "outside \<Rightarrow> export_ops \<Rightarrow> xdg_app_dir \<Rightarrow> string \<Rightarrow> string option \<Rightarrow>
     (error + unit) \<times> xdg_app_dir" where
  "xdg_app_dir_deploy w ops self ref checksum =
     (case xdg_app_dir_ensure_repo w self of
        (Inl e, self1) \<Rightarrow> (Inl e, self1)
      | (Inr u, self1) \<Rightarrow>
          (case repo self1 of
             None \<Rightarrow> (Inl OSTREE_ERROR, self1)
           | Some r \<Rightarrow>
               (case deploy_find_commit w self1 r ref checksum of
                  (Inl e, r') \<Rightarrow> (Inl e, self1\<lparr>repo := Some r'\<rparr>)
                | (Inr c, r') \<Rightarrow> deploy_checkout w ops (self1\<lparr>repo := Some r'\<rparr>) r' ref c)))"

text \<open>The commit that a deploy checks out, when it comes to that: its checksum and its
  root directory.\<close>

definition deploy_commit ::
  "outside \<Rightarrow> xdg_app_dir \<Rightarrow> string \<Rightarrow> string option \<Rightarrow> (string \<times> dirents) option" where
  "deploy_commit w self ref checksum =
     (case xdg_app_dir_ensure_repo w self of
        (Inl e, self1) \<Rightarrow> None
      | (Inr u, self1) \<Rightarrow>
          (case repo self1 of
             None \<Rightarrow> None
           | Some r \<Rightarrow>
               (case deploy_find_commit w self1 r ref checksum of
                  (Inl e, r') \<Rightarrow> None
                | (Inr c, r') \<Rightarrow> map_option (Pair c) (commits r' c))))"

text \<open>The contents of a D-Bus service file that load as a key file without a \<^verbatim>\<open>Name\<close>
  in \<^verbatim>\<open>[D-BUS Service]\<close> equal to the file name without \<^verbatim>\<open>.service\<close>; and a
  directory that holds such a regular file, at any depth.\<close>

definition service_name_wrong :: "export_ops \<Rightarrow> string \<Rightarrow> string \<Rightarrow> bool" where
  "service_name_wrong ops name contents =
     (case key_file_load ops contents of
        Inl e \<Rightarrow> False
      | Inr keyfile \<Rightarrow>
          g_key_file_get_string keyfile ''D-BUS Service'' ''Name''
            \<noteq> Some (take (length name - length ''.service'') name))"

fun has_bad_service :: "export_ops \<Rightarrow> dirents \<Rightarrow> bool" where
  "has_bad_service ops [] = False"
| "has_bad_service ops ((name, Directory sub) # rest) =
     (has_bad_service ops sub \<or> has_bad_service ops rest)"
| "has_bad_service ops ((name, Regular contents) # rest) =
     ((g_str_has_suffix name ''.service'' \<and> service_name_wrong ops name contents)
      \<or> has_bad_service ops rest)"
| "has_bad_service ops ((name, other) # rest) = has_bad_service ops rest"

text \<open>A commit whose \<^verbatim>\<open>export\<close> tree holds the service file \<^verbatim>\<open>org.test.Hello.service\<close>
  with \<^verbatim>\<open>Name=org.test.Other\<close>, in the object store of the example store.\<close>

definition ex_sum_c :: string where
  "ex_sum_c = ''cccccccccccccccccccccccccccccccccccccccccccccccccccccccccccccccc''"

definition ex_commit_tree :: dirents where
  "ex_commit_tree =
     [(''files'', Directory [(''bin'', Directory [(''hello'', Regular ''#!/bin/sh'')])]),
      (''export'', Directory
         [(''share'', Directory
            [(''dbus-1'', Directory
               [(''services'', Directory
                  [(''org.test.Hello.service'',
                    Regular (ex_service_file ''org.test.Other''))])])])])]"

definition ex_commit_store :: xdg_app_dir where
  "ex_commit_store =
     ex_store\<lparr>repo := Some (ex_repo\<lparr>commits := (\<lambda>c. if c = ex_sum_c then Some ex_commit_tree else None)\<rparr>)\<rparr>"

section \<open>Properties\<close>

subsection \<open>Reading the tree after a write\<close>

lemma lstat_append:
  "lstat t (p @ q) = (case lstat t p of Inl e \<Rightarrow> Inl e | Inr n \<Rightarrow> lstat n q)"
  by (induction t p rule: lstat.induct) (simp_all split: option.splits)

lemma put_at_snoc_Directory:
  "put_at (Directory es) (a # p @ [x]) v =
     (case map_of es a of
        None \<Rightarrow> (if p = [] then put_at (Directory es) [a, x] v else Directory es)
      | Some c \<Rightarrow> Directory (AList.update a (put_at c (p @ [x]) v) es))"
  by (cases p) (simp_all split: option.splits)

lemma lstat_put_parent:
  "lstat t p = Inr (Directory es) \<Longrightarrow>
   lstat (put_at t (p @ [x]) v) p =
     Inr (Directory (case v of None \<Rightarrow> AList.delete x es | Some c \<Rightarrow> AList.update x c es))"
proof (induction p arbitrary: t)
  case Nil
  then show ?case by simp
next
  case (Cons a p)
  from Cons.prems obtain es0 c where t: "t = Directory es0" and a: "map_of es0 a = Some c"
    and c: "lstat c p = Inr (Directory es)"
    by (cases t) (auto split: option.splits)
  have "put_at t ((a # p) @ [x]) v = Directory (AList.update a (put_at c (p @ [x]) v) es0)"
    using t a by (cases p) simp_all
  then show ?case using Cons.IH [OF c] by (simp add: update_conv')
qed

lemma lstat_put_child:
  assumes "lstat t p = Inr (Directory es)"
  shows "lstat (put_at t (p @ [x]) v) (p @ y # q) =
     (if y = x then (case v of None \<Rightarrow> Inl G_IO_ERROR_NOT_FOUND | Some c \<Rightarrow> lstat c q)
      else lstat t (p @ y # q))"
  using assms
  by (simp add: lstat_append [of _ p] lstat_put_parent update_conv' delete_conv' split: option.splits)

lemma lstat_put_diverge:
  "x \<noteq> y \<Longrightarrow> lstat (put_at t (r @ x # p) v) (r @ y # q) = lstat t (r @ y # q)"
proof (induction r arbitrary: t)
  case Nil
  show ?case
  proof (cases t)
    case (Directory es)
    then show ?thesis using Nil
      by (cases p) (auto simp: update_conv' delete_conv' split: option.splits)
  qed simp_all
next
  case (Cons a r)
  obtain z zs where zz: "r @ x # p = z # zs" by (cases r) auto
  show ?case
  proof (cases t)
    case (Directory es)
    show ?thesis
    proof (cases "map_of es a")
      case None
      then show ?thesis using Directory by (simp add: zz)
    next
      case (Some c)
      have "put_at t ((a # r) @ x # p) v = Directory (AList.update a (put_at c (r @ x # p) v) es)"
        using Directory Some by (simp add: zz)
      then show ?thesis using Directory Some Cons.IH [OF Cons.prems, of c]
        by (simp add: update_conv')
    qed
  qed simp_all
qed

subsection \<open>The example store\<close>

lemma ex_deploy_dir: "xdg_app_dir_get_deploy_dir ex_ref = [''app'', ''org.test.Hello'', ''x86_64'', ''master'']"
  by (simp add: xdg_app_dir_get_deploy_dir_def g_file_resolve_relative_path_def g_strsplit_slash_def ex_ref_def)

lemma ex_lstat: "lstat (ex_tree d others) (xdg_app_dir_get_deploy_dir ex_ref) = Inr (Directory d)"
  by (simp add: ex_deploy_dir ex_tree_def)

lemma ex_lstat_child: "lstat (ex_tree d others) (xdg_app_dir_get_deploy_dir ex_ref @ p) = lstat (Directory d) p"
  by (simp add: ex_deploy_dir ex_tree_def)

lemma ex_put_child:
  "put_at (ex_tree d others) (xdg_app_dir_get_deploy_dir ex_ref @ [x]) v =
     ex_tree (case v of None \<Rightarrow> AList.delete x d | Some c \<Rightarrow> AList.update x c d) others"
  by (simp add: ex_deploy_dir ex_tree_def)

lemmas ex_names = ex_sum_a_def ex_sum_b_def ex_name_z_def

subsection \<open>What \<^verbatim>\<open>xdg_app_dir_list_deployed\<close> returns\<close>

lemma first_char_not_dot_hd:
  "(first_char_not_dot name \<and> length name = 64) = (length name = 64 \<and> hd name \<noteq> CHR ''.'')"
  by (cases name) (auto simp: first_char_not_dot_def)

lemma list_deployed_loop_filter:
  "list_deployed_loop children acc = acc @ map fst (filter deployed_entry children)"
  by (induction children acc rule: list_deployed_loop.induct)
     (simp_all add: deployed_entry_def first_char_not_dot_hd)

text \<open>
  Claim C10. When the deploy base of a ref is a directory, \<^verbatim>\<open>xdg_app_dir_list_deployed\<close>
  succeeds and returns, in the order of the enumeration, exactly the names of its
  children that are directories, have a name of 64 characters and do not begin with a
  dot; the name is not checked any further. When the deploy base does not exist, it
  succeeds with the empty list.
\<close>

theorem list_deployed_names:
  "(lstat (basedir self) (xdg_app_dir_get_deploy_dir ref) = Inr (Directory children) \<longrightarrow>
      xdg_app_dir_list_deployed self ref =
        Inr (map fst (filter (\<lambda>(name, n). (\<exists>es. n = Directory es) \<and> length name = 64 \<and> hd name \<noteq> CHR ''.'') children)))
   \<and> (lstat (basedir self) (xdg_app_dir_get_deploy_dir ref) = Inl G_IO_ERROR_NOT_FOUND \<longrightarrow>
      xdg_app_dir_list_deployed self ref = Inr [])"
proof -
  have "deployed_entry = (\<lambda>(name, n). (\<exists>es. n = Directory es) \<and> length name = 64 \<and> hd name \<noteq> CHR ''.'')"
    by (auto simp: deployed_entry_def fun_eq_iff split: node.splits)
  then show ?thesis
    by (simp add: xdg_app_dir_list_deployed_def list_deployed_loop_filter)
qed

text \<open>In the example store the name of 64 letters \<open>Z\<close>, which is not hexadecimal, is
  reported between the two checksums; the hidden link, the files and the directory with
  a short name are not. A ref that has no deploy base has no deployment.\<close>

theorem list_deployed_names_witness:
  "lstat (basedir ex_store) (xdg_app_dir_get_deploy_dir ex_ref) = Inr (Directory ex_deploy_base)
   \<and> xdg_app_dir_list_deployed ex_store ex_ref = Inr [ex_sum_a, ex_name_z, ex_sum_b]
   \<and> lstat (basedir ex_store) (xdg_app_dir_get_deploy_dir ''app/org.test.Hello/x86_64/stable'') = Inl G_IO_ERROR_NOT_FOUND
   \<and> xdg_app_dir_list_deployed ex_store ''app/org.test.Hello/x86_64/stable'' = Inr []"
proof -
  have a: "lstat (basedir ex_store) (xdg_app_dir_get_deploy_dir ex_ref) = Inr (Directory ex_deploy_base)"
    by (simp add: ex_store_def ex_lstat)
  have b: "lstat (basedir ex_store) (xdg_app_dir_get_deploy_dir ''app/org.test.Hello/x86_64/stable'') = Inl G_IO_ERROR_NOT_FOUND"
    by (simp add: ex_store_def ex_tree_def xdg_app_dir_get_deploy_dir_def
        g_file_resolve_relative_path_def g_strsplit_slash_def)
  have c: "map fst (filter (\<lambda>(name, n). (\<exists>es. n = Directory es) \<and> length name = 64 \<and> hd name \<noteq> CHR ''.'') ex_deploy_base)
     = [ex_sum_a, ex_name_z, ex_sum_b]"
    by (simp add: ex_deploy_base_def ex_checkout_def ex_names)
  from list_deployed_names [of ex_store ex_ref ex_deploy_base] a c
  have "xdg_app_dir_list_deployed ex_store ex_ref = Inr [ex_sum_a, ex_name_z, ex_sum_b]" by simp
  moreover from list_deployed_names [of ex_store "''app/org.test.Hello/x86_64/stable''"] b
  have "xdg_app_dir_list_deployed ex_store ''app/org.test.Hello/x86_64/stable'' = Inr []" by simp
  ultimately show ?thesis using a b by simp
qed

subsection \<open>Setting and reading the active link\<close>

lemma tmp_not_active: "gs_fileutil_gen_tmp_name ''.active-'' rnd [] \<noteq> ''active''"
  by (simp add: gs_fileutil_gen_tmp_name_def)

lemma set_active_Some_result:
  assumes "xdg_app_dir_set_active rnd self ref (Some c) = (Inr (), self')"
  shows "lstat (basedir self') (xdg_app_dir_get_deploy_dir ref @ [''active'']) = Inr (Symlink c)"
proof -
  define base where "base = xdg_app_dir_get_deploy_dir ref"
  define tmp where "tmp = gs_fileutil_gen_tmp_name ''.active-'' rnd []"
  have ne: "tmp \<noteq> ''active''" by (simp add: tmp_def tmp_not_active)
  from assms obtain root1 root2 where
    r1: "g_file_make_symbolic_link (basedir self) (base @ [tmp]) c = Inr root1" and
    r2: "gs_file_rename root1 (base @ [tmp]) (base @ [''active'']) = Inr root2" and
    s': "self' = self\<lparr>basedir := root2\<rparr>"
    by (auto simp: xdg_app_dir_set_active_def Let_def g_file_get_child_def base_def tmp_def
        split: sum.splits)
  from r1 obtain es where
    b0: "lstat (basedir self) base = Inr (Directory es)" and
    root1: "root1 = put_at (basedir self) (base @ [tmp]) (Some (Symlink c))"
    by (auto simp: g_file_make_symbolic_link_def split: if_splits sum.splits node.splits option.splits)
  have b1: "lstat root1 base = Inr (Directory (AList.update tmp (Symlink c) es))"
    using lstat_put_parent [OF b0, of tmp "Some (Symlink c)"] by (simp add: root1)
  have t1: "lstat root1 (base @ [tmp]) = Inr (Symlink c)"
    using lstat_put_child [OF b0, of tmp "Some (Symlink c)" tmp "[]"] by (simp add: root1)
  have np: "\<not> is_prefix (base @ [tmp]) (base @ [''active''])"
    using ne by (simp add: is_prefix_def)
  from r2 have root2: "root2 = put_at (put_at root1 (base @ [tmp]) None) (base @ [''active'']) (Some (Symlink c))"
    using ne np by (auto simp: gs_file_rename_def t1 b1 split: if_splits option.splits)
  have b2: "lstat (put_at root1 (base @ [tmp]) None) base = Inr (Directory (AList.delete tmp (AList.update tmp (Symlink c) es)))"
    using lstat_put_parent [OF b1, of tmp None] by simp
  show ?thesis
    using lstat_put_child [OF b2, of "''active''" "Some (Symlink c)" "''active''" "[]"]
    by (simp add: root2 s' base_def)
qed


text \<open>
  Claim C2. After \<^verbatim>\<open>xdg_app_dir_set_active\<close> has succeeded with a checksum,
  \<^verbatim>\<open>xdg_app_dir_read_active\<close> returns exactly that checksum. With no checksum, and
  \<^verbatim>\<open>active\<close> a symbolic link or missing, it succeeds and \<^verbatim>\<open>xdg_app_dir_read_active\<close>
  returns nothing afterwards: a link that was not there is not an error.
\<close>

theorem set_active_read_active:
  "(xdg_app_dir_set_active rnd self ref (Some c) = (Inr (), self') \<longrightarrow>
      xdg_app_dir_read_active self' ref = Some c)
   \<and> (active_link_or_missing self ref \<longrightarrow>
        fst (xdg_app_dir_set_active rnd self ref None) = Inr () \<and>
        xdg_app_dir_read_active (snd (xdg_app_dir_set_active rnd self ref None)) ref = None)"
proof (intro conjI impI)
  assume "xdg_app_dir_set_active rnd self ref (Some c) = (Inr (), self')"
  from set_active_Some_result [OF this]
  show "xdg_app_dir_read_active self' ref = Some c"
    by (simp add: xdg_app_dir_read_active_def g_file_get_child_def)
next
  define base where "base = xdg_app_dir_get_deploy_dir ref"
  assume am: "active_link_or_missing self ref"
  show "fst (xdg_app_dir_set_active rnd self ref None) = Inr ()"
    using am
    by (auto simp: active_link_or_missing_def xdg_app_dir_set_active_def g_file_delete_def
        g_file_get_child_def split: sum.splits node.splits if_splits)
  show "xdg_app_dir_read_active (snd (xdg_app_dir_set_active rnd self ref None)) ref = None"
  proof (cases "lstat (basedir self) (base @ [''active''])")
    case (Inl e)
    then show ?thesis
      by (auto simp: xdg_app_dir_set_active_def g_file_delete_def xdg_app_dir_read_active_def
        g_file_get_child_def base_def split: sum.splits node.splits if_splits)
  next
    case (Inr n)
    then obtain es where b: "lstat (basedir self) base = Inr (Directory es)"
      by (cases "lstat (basedir self) base"; cases "projr (lstat (basedir self) base)")
         (auto simp: lstat_append [of _ base])
    from am Inr obtain t where n: "n = Symlink t"
      by (auto simp: active_link_or_missing_def g_file_get_child_def base_def split: node.splits)
    have "lstat (put_at (basedir self) (base @ [''active'']) None) (base @ [''active'']) = Inl G_IO_ERROR_NOT_FOUND"
      using lstat_put_child [OF b, of "''active''" None "''active''" "[]"] by simp
    then show ?thesis using Inr n
      by (simp add: xdg_app_dir_set_active_def g_file_delete_def xdg_app_dir_read_active_def
        g_file_get_child_def base_def)
  qed
qed

lemma ex_set_active_ok:
  "fst (xdg_app_dir_set_active ''ABCDEFGH'' ex_store ex_ref (Some ex_sum_b)) = Inr ()"
  by (simp add: xdg_app_dir_set_active_def ex_store_def g_file_get_child_def
      g_file_make_symbolic_link_def gs_fileutil_gen_tmp_name_def ex_lstat ex_lstat_child
      ex_put_child gs_file_rename_def is_prefix_def may_replace_def ex_deploy_base_def ex_names)

theorem set_active_read_active_witness:
  "fst (xdg_app_dir_set_active ''ABCDEFGH'' ex_store ex_ref (Some ex_sum_b)) = Inr ()
   \<and> xdg_app_dir_read_active
         (snd (xdg_app_dir_set_active ''ABCDEFGH'' ex_store ex_ref (Some ex_sum_b))) ex_ref = Some ex_sum_b
   \<and> active_link_or_missing (ex_store\<lparr>basedir := ex_tree [(ex_sum_a, ex_checkout)] []\<rparr>) ex_ref
   \<and> fst (xdg_app_dir_set_active ''ABCDEFGH''
         (ex_store\<lparr>basedir := ex_tree [(ex_sum_a, ex_checkout)] []\<rparr>) ex_ref None) = Inr ()
   \<and> xdg_app_dir_read_active
         (snd (xdg_app_dir_set_active ''ABCDEFGH''
            (ex_store\<lparr>basedir := ex_tree [(ex_sum_a, ex_checkout)] []\<rparr>) ex_ref None)) ex_ref = None"
proof -
  let ?s = "ex_store\<lparr>basedir := ex_tree [(ex_sum_a, ex_checkout)] []\<rparr>"
  have a: "xdg_app_dir_set_active ''ABCDEFGH'' ex_store ex_ref (Some ex_sum_b) =
      (Inr (), snd (xdg_app_dir_set_active ''ABCDEFGH'' ex_store ex_ref (Some ex_sum_b)))"
    using ex_set_active_ok by (simp add: prod_eq_iff)
  have b: "active_link_or_missing ?s ex_ref"
    by (simp add: active_link_or_missing_def g_file_get_child_def ex_lstat_child ex_names)
  show ?thesis
    using set_active_read_active [of "''ABCDEFGH''" ex_store ex_ref ex_sum_b
              "snd (xdg_app_dir_set_active ''ABCDEFGH'' ex_store ex_ref (Some ex_sum_b))"]
          set_active_read_active [of "''ABCDEFGH''" ?s ex_ref] a b ex_set_active_ok
    by simp
qed

subsection \<open>The default of \<^verbatim>\<open>xa.noenumerate\<close>\<close>

text \<open>
  Claim C7, as the code has it. For a remote whose group in the repository config has
  no \<^verbatim>\<open>xa.noenumerate\<close> key, \<^verbatim>\<open>xdg_app_dir_get_remote_noenumerate\<close> returns
  \<^verbatim>\<open>FALSE\<close> (what \<^verbatim>\<open>g_key_file_get_boolean\<close> returns for a missing key); it returns
  \<^verbatim>\<open>TRUE\<close> only when the repository has no config key file at all.
\<close>

theorem remote_noenumerate_absent_key:
  assumes "g_key_file_get_string c (get_group remote_name) ''xa.noenumerate'' = None"
  shows "\<not> xdg_app_dir_get_remote_noenumerate (Some c) remote_name
     \<and> xdg_app_dir_get_remote_noenumerate None remote_name"
  using assms
  by (simp add: xdg_app_dir_get_remote_noenumerate_def g_key_file_get_boolean_def)

theorem remote_noenumerate_absent_key_witness:
  "g_key_file_get_string [(get_group ''gnome'', [KeyValue ''url'' ''http://sdk.gnome.org/repo''])]
       (get_group ''gnome'') ''xa.noenumerate'' = None
   \<and> \<not> xdg_app_dir_get_remote_noenumerate
        (Some [(get_group ''gnome'', [KeyValue ''url'' ''http://sdk.gnome.org/repo''])]) ''gnome''
   \<and> xdg_app_dir_get_remote_noenumerate None ''gnome''"
proof -
  have h: "g_key_file_get_string [(get_group ''gnome'', [KeyValue ''url'' ''http://sdk.gnome.org/repo''])]
       (get_group ''gnome'') ''xa.noenumerate'' = None"
    by (simp add: g_key_file_get_string_def)
  show ?thesis
    using h remote_noenumerate_absent_key [OF h] by simp
qed

text \<open>The claim as the specification states it (the option is true when the key is
  absent) fails for a remote that has a group with a URL and nothing else.\<close>

theorem remote_noenumerate_default_counterexample:
  "g_key_file_get_string [(get_group ''origin'', [KeyValue ''url'' ''file:///srv/repo''])]
       (get_group ''origin'') ''xa.noenumerate'' = None
   \<and> xdg_app_dir_get_remote_noenumerate
        (Some [(get_group ''origin'', [KeyValue ''url'' ''file:///srv/repo''])]) ''origin'' = False"
  by (simp add: xdg_app_dir_get_remote_noenumerate_def g_key_file_get_boolean_def
      g_key_file_get_string_def)

subsection \<open>The header of a fetched \<^verbatim>\<open>.filez\<close> object\<close>

text \<open>
  Claim C8. The claim asks for a failure of kind \<^verbatim>\<open>FAILED\<close> whenever 4 + h + 4 exceeds
  the size of the object, h being the big-endian number in its first four bytes. The
  sum is computed in 32 bits. For the nine bytes \<^verbatim>\<open>FF FF FF FC 01 00 00 FF FF\<close>, h is
  4294967292 and 4 + h + 4 wraps to 4, which does not exceed 9: the object is not
  refused, and the decompressor runs on the five bytes after the first four.
\<close>

theorem filez_header_size_wraps:
  "guint32_from_be [0xFF, 0xFF, 0xFF, 0xFC, 1, 0, 0, 0xFF, 0xFF] = 4294967292
   \<and> filez_payload decompress [0xFF, 0xFF, 0xFF, 0xFC, 1, 0, 0, 0xFF, 0xFF]
       = decompress [1, 0, 0, 0xFF, 0xFF]"
  by (simp add: filez_payload_def)

subsection \<open>What \<^verbatim>\<open>xdg_app_dir_list_refs\<close> returns\<close>

lemma list_refs_branches_eq:
  "list_refs_branches kind name arch es refs =
     refs @ map (ref_of_parts kind name arch) (branch_names es)"
  by (induction kind name arch es refs rule: list_refs_branches.induct)
     (simp_all add: branch_names_def is_directory_def)

lemma arch_branches_Cons:
  "arch_branches ((a, n) # archs) =
     (case n of Directory bs \<Rightarrow> if a = ''data'' then [] else map (Pair a) (branch_names bs) | _ \<Rightarrow> [])
     @ arch_branches archs"
  by (simp add: arch_branches_def split: node.splits)

lemma list_refs_archs_eq:
  "list_refs_archs kind name archs refs =
     refs @ map (\<lambda>(a, b). ref_of_parts kind name a b) (arch_branches archs)"
  by (induction kind name archs refs rule: list_refs_archs.induct)
     (simp_all add: arch_branches_Cons list_refs_branches_eq comp_def, simp add: arch_branches_def)

lemma name_triples_Cons:
  "name_triples ((n, c) # names) =
     (case c of Directory archs \<Rightarrow> map (Pair n) (arch_branches archs) | _ \<Rightarrow> [])
     @ name_triples names"
  by (simp add: name_triples_def split: node.splits)

lemma map_of_distinct_mem:
  "distinct (map fst es) \<Longrightarrow> (k, v) \<in> set es \<Longrightarrow> map_of es k = Some v"
  by simp

lemma list_refs_for_name_eq:
  assumes "lstat (basedir self) [kind] = Inr (Directory names)"
    and "distinct (map fst names)" and "(n, Directory archs) \<in> set names"
  shows "xdg_app_dir_list_refs_for_name self kind n =
     Inr (sort (map (\<lambda>(a, b). ref_of_parts kind n a b) (arch_branches archs)))"
proof -
  have "lstat (basedir self) ([kind] @ [n]) = Inr (Directory archs)"
    using assms lstat_append [of "basedir self" "[kind]" "[n]"] by simp
  then show ?thesis
    by (simp add: xdg_app_dir_list_refs_for_name_def g_file_get_child_def g_file_query_exists_def
        list_refs_archs_eq g_ptr_array_sort_strvcmp_def)
qed

lemma list_refs_names_mset:
  assumes "lstat (basedir self) [kind] = Inr (Directory names)"
    and "distinct (map fst names)" and "set cs \<subseteq> set names"
  shows "\<exists>r. list_refs_names self kind cs refs = Inr r \<and>
     mset r = mset refs + mset (map (\<lambda>(n, a, b). ref_of_parts kind n a b) (name_triples cs))"
  using assms(3)
proof (induction cs arbitrary: refs)
  case Nil
  then show ?case by (simp add: name_triples_def)
next
  case (Cons e cs)
  obtain n c where e: "e = (n, c)" by (cases e)
  show ?case
  proof (cases c)
    case (Directory archs)
    have "(n, Directory archs) \<in> set names" using Cons.prems e Directory by auto
    from list_refs_for_name_eq [OF assms(1,2) this] Cons.IH [of "refs @ sort (map (\<lambda>(a, b). ref_of_parts kind n a b) (arch_branches archs))"] Cons.prems
    show ?thesis
      by (auto simp: e Directory name_triples_Cons comp_def split_def)
  next
    case (Regular x)
    then show ?thesis using Cons by (simp add: e name_triples_Cons)
  next
    case (Symlink x)
    then show ?thesis using Cons by (simp add: e name_triples_Cons)
  next
    case Special
    then show ?thesis using Cons by (simp add: e name_triples_Cons)
  qed
qed


lemma slash_split_unique:
  "CHR ''/'' \<notin> set x \<Longrightarrow> CHR ''/'' \<notin> set x' \<Longrightarrow> x @ CHR ''/'' # r = x' @ CHR ''/'' # r' \<Longrightarrow>
   x = x' \<and> r = r'"
proof (induction x arbitrary: x')
  case Nil
  then show ?case by (cases x') auto
next
  case (Cons c x)
  then show ?case by (cases x') auto
qed

lemma ref_of_parts_inj:
  assumes "CHR ''/'' \<notin> set n" "CHR ''/'' \<notin> set n'" "CHR ''/'' \<notin> set a" "CHR ''/'' \<notin> set a'"
    and "ref_of_parts kind n a b = ref_of_parts kind n' a' b'"
  shows "n = n' \<and> a = a' \<and> b = b'"
proof -
  from assms(5) have "n @ CHR ''/'' # (a @ CHR ''/'' # b) = n' @ CHR ''/'' # (a' @ CHR ''/'' # b')"
    by (simp add: ref_of_parts_def)
  from slash_split_unique [OF assms(1,2) this]
  have n: "n = n'" and "a @ CHR ''/'' # b = a' @ CHR ''/'' # b'" by simp_all
  from slash_split_unique [OF assms(3,4) this(2)] n show ?thesis by simp
qed

lemma branch_names_iff:
  "b \<in> set (branch_names bs) \<longleftrightarrow> (\<exists>x. (b, Directory x) \<in> set bs)"
  by (induction bs) (auto simp: branch_names_def is_directory_def split: node.splits)

lemma arch_branches_iff:
  "(a, b) \<in> set (arch_branches archs) \<longleftrightarrow>
     (\<exists>bs. (a, Directory bs) \<in> set archs \<and> a \<noteq> ''data'' \<and> b \<in> set (branch_names bs))"
  by (induction archs) (auto simp: arch_branches_def split: node.splits if_splits)

lemma name_triples_iff:
  "(n, a, b) \<in> set (name_triples names) \<longleftrightarrow>
     (\<exists>archs. (n, Directory archs) \<in> set names \<and> (a, b) \<in> set (arch_branches archs))"
  by (induction names) (auto simp: name_triples_def split: node.splits if_splits)

lemma wf_node_child:
  "wf_node (Directory es) \<Longrightarrow> (k, c) \<in> set es \<Longrightarrow> valid_name k \<and> wf_node c"
  by (simp, drule conjunct2, drule bspec, assumption, simp)

lemma lstat_Cons_Inr:
  "lstat t (x # p) = Inr r \<Longrightarrow> \<exists>es c. t = Directory es \<and> map_of es x = Some c \<and> lstat c p = Inr r"
  by (cases t) (auto split: option.splits)

lemma distinct_branch_names: "distinct (map fst bs) \<Longrightarrow> distinct (branch_names bs)"
  by (simp add: branch_names_def distinct_map_filter)

lemma distinct_arch_branches:
  "distinct (map fst archs) \<Longrightarrow> \<forall>e \<in> set archs. wf_node (snd e) \<Longrightarrow> distinct (arch_branches archs)"
proof (induction archs)
  case Nil
  then show ?case by (simp add: arch_branches_def)
next
  case (Cons e archs)
  obtain a n where e: "e = (a, n)" by (cases e)
  have disj: "\<And>b. (a, b) \<notin> set (arch_branches archs)"
    using Cons.prems(1) by (force simp: e arch_branches_iff)
  have part: "distinct (case n of Directory bs \<Rightarrow> if a = ''data'' then [] else map (Pair a) (branch_names bs) | _ \<Rightarrow> [])"
  proof (cases n)
    case (Directory bs)
    have "wf_node (Directory bs)" using Cons.prems(2) by (simp add: e Directory)
    then have "distinct (branch_names bs)" by (simp add: distinct_branch_names)
    then show ?thesis by (simp add: Directory distinct_map inj_on_def)
  qed simp_all
  show ?case using Cons part disj
    by (auto simp: e arch_branches_Cons split: node.splits if_splits)
qed

lemma distinct_name_triples:
  "wf_node (Directory names) \<Longrightarrow> distinct (name_triples names)"
proof (induction names)
  case Nil
  then show ?case by (simp add: name_triples_def)
next
  case (Cons e names)
  obtain n c where e: "e = (n, c)" by (cases e)
  have disj: "\<And>a b. (n, a, b) \<notin> set (name_triples names)"
    using Cons.prems by (force simp: e name_triples_iff)
  have part: "distinct (case c of Directory archs \<Rightarrow> map (Pair n) (arch_branches archs) | _ \<Rightarrow> [])"
  proof (cases c)
    case (Directory archs)
    have "wf_node (Directory archs)" using Cons.prems by (simp add: e Directory)
    then have "distinct (arch_branches archs)" by (simp add: distinct_arch_branches)
    then show ?thesis by (simp add: Directory distinct_map inj_on_def)
  qed simp_all
  show ?case using Cons part disj
    by (auto simp: e name_triples_Cons split: node.splits if_splits)
qed

lemma name_triples_lstat:
  assumes "wf_node (Directory names)"
  shows "(n, a, b) \<in> set (name_triples names) \<longleftrightarrow>
     a \<noteq> ''data'' \<and> (\<exists>x. lstat (Directory names) [n, a, b] = Inr (Directory x))"
proof
  assume "(n, a, b) \<in> set (name_triples names)"
  then obtain archs bs x where m: "(n, Directory archs) \<in> set names" "(a, Directory bs) \<in> set archs"
    "a \<noteq> ''data''" "(b, Directory x) \<in> set bs"
    by (auto simp: name_triples_iff arch_branches_iff branch_names_iff)
  have w1: "wf_node (Directory archs)" using wf_node_child [OF assms m(1)] by simp
  have w2: "wf_node (Directory bs)" using wf_node_child [OF w1 m(2)] by simp
  have "map_of names n = Some (Directory archs)" using assms m(1) by simp
  moreover have "map_of archs a = Some (Directory bs)" using w1 m(2) by simp
  moreover have "map_of bs b = Some (Directory x)" using w2 m(4) by simp
  ultimately show "a \<noteq> ''data'' \<and> (\<exists>x. lstat (Directory names) [n, a, b] = Inr (Directory x))"
    using m(3) by simp
next
  assume r: "a \<noteq> ''data'' \<and> (\<exists>x. lstat (Directory names) [n, a, b] = Inr (Directory x))"
  then obtain x where l: "lstat (Directory names) [n, a, b] = Inr (Directory x)" by blast
  from lstat_Cons_Inr [OF l] obtain c1 where c1: "map_of names n = Some c1" "lstat c1 [a, b] = Inr (Directory x)"
    by auto
  from lstat_Cons_Inr [OF c1(2)] obtain archs c2 where c2: "c1 = Directory archs" "map_of archs a = Some c2"
    "lstat c2 [b] = Inr (Directory x)" by auto
  from lstat_Cons_Inr [OF c2(3)] obtain bs where c3: "c2 = Directory bs" "map_of bs b = Some (Directory x)"
    by auto
  have "(n, Directory archs) \<in> set names" using c1(1) c2(1) by (simp add: map_of_SomeD)
  moreover have "(a, Directory bs) \<in> set archs" using c2(2) c3(1) by (simp add: map_of_SomeD)
  moreover have "(b, Directory x) \<in> set bs" using c3(2) by (simp add: map_of_SomeD)
  ultimately show "(n, a, b) \<in> set (name_triples names)" using r
    unfolding name_triples_iff arch_branches_iff branch_names_iff by blast
qed

lemma name_triples_valid:
  assumes "wf_node (Directory names)" "(n, a, b) \<in> set (name_triples names)"
  shows "CHR ''/'' \<notin> set n \<and> CHR ''/'' \<notin> set a"
proof -
  from assms(2) obtain archs bs where m: "(n, Directory archs) \<in> set names" "(a, Directory bs) \<in> set archs"
    unfolding name_triples_iff arch_branches_iff by blast
  from wf_node_child [OF assms(1) m(1)] have 1: "valid_name n" "wf_node (Directory archs)" by simp_all
  from wf_node_child [OF 1(2) m(2)] have "valid_name a" by simp
  with 1 show ?thesis by (simp add: valid_name_def)
qed

lemma ref_of_triples_inj:
  assumes "wf_node (Directory names)"
  shows "inj_on (\<lambda>(n, a, b). ref_of_parts kind n a b) (set (name_triples names))"
proof (rule inj_onI)
  fix t t' assume t: "t \<in> set (name_triples names)" "t' \<in> set (name_triples names)"
    and eq: "(case t of (n, a, b) \<Rightarrow> ref_of_parts kind n a b) = (case t' of (n, a, b) \<Rightarrow> ref_of_parts kind n a b)"
  obtain n a b where tt: "t = (n, a, b)" by (cases t)
  obtain n' a' b' where tt': "t' = (n', a', b')" by (cases t')
  from name_triples_valid [OF assms] t tt have v: "CHR ''/'' \<notin> set n" "CHR ''/'' \<notin> set a" by blast+
  from name_triples_valid [OF assms] t tt' have v': "CHR ''/'' \<notin> set n'" "CHR ''/'' \<notin> set a'" by blast+
  from eq have "ref_of_parts kind n a b = ref_of_parts kind n' a' b'" by (simp add: tt tt')
  from ref_of_parts_inj [OF v(1) v'(1) v(2) v'(2) this] show "t = t'" by (simp add: tt tt')
qed

text \<open>
  Claim C6, as the code has it. In a store whose tree has distinct names without
  slashes in every directory, \<^verbatim>\<open>xdg_app_dir_list_refs\<close> on a kind whose directory
  exists succeeds with a list that is sorted in the order of \<^verbatim>\<open>strcmp\<close>, has no
  duplicates, and holds exactly the refs \<^verbatim>\<open>kind/name/arch/branch\<close> of the branch
  directories below every name directory and every arch directory that is not called
  \<^verbatim>\<open>data\<close>. The directory passed over is a child \<^verbatim>\<open>data\<close> of a name directory
  (\<^verbatim>\<open><base>/<kind>/<name>/data\<close>); a name directory called \<^verbatim>\<open>data\<close> is listed like any
  other. When the directory of the kind does not exist, the call succeeds with the
  empty list.
\<close>

theorem list_refs_sorted_distinct:
  assumes "wf_node (basedir self)"
  shows "(lstat (basedir self) [kind] = Inr (Directory names) \<longrightarrow>
           (\<exists>refs. xdg_app_dir_list_refs self kind = Inr refs \<and> sorted refs \<and> distinct refs \<and>
              set refs = {ref_of_parts kind n a b |n a b.
                            a \<noteq> ''data'' \<and> (\<exists>x. lstat (basedir self) [kind, n, a, b] = Inr (Directory x))}))
       \<and> (lstat (basedir self) [kind] = Inl G_IO_ERROR_NOT_FOUND \<longrightarrow>
           xdg_app_dir_list_refs self kind = Inr [])"
proof (intro conjI impI)
  assume "lstat (basedir self) [kind] = Inl G_IO_ERROR_NOT_FOUND"
  then show "xdg_app_dir_list_refs self kind = Inr []"
    by (simp add: xdg_app_dir_list_refs_def g_file_get_child_def g_file_query_exists_def)
next
  assume k: "lstat (basedir self) [kind] = Inr (Directory names)"
  from lstat_Cons_Inr [OF k] obtain es where root: "basedir self = Directory es"
    and mk: "map_of es kind = Some (Directory names)" by auto
  have "(kind, Directory names) \<in> set es" using mk by (simp add: map_of_SomeD)
  with assms root have wf: "wf_node (Directory names)"
    using wf_node_child [of es kind "Directory names"] by simp
  then have dn: "distinct (map fst names)" by simp
  let ?f = "\<lambda>(n, a, b). ref_of_parts kind n a b"
  let ?S = "{ref_of_parts kind n a b |n a b.
       a \<noteq> ''data'' \<and> (\<exists>x. lstat (basedir self) [kind, n, a, b] = Inr (Directory x))}"
  from list_refs_names_mset [OF k dn subset_refl, of "[]"]
  obtain r where r: "list_refs_names self kind names [] = Inr r"
    and mr: "mset r = mset (map ?f (name_triples names))" by auto
  have res: "xdg_app_dir_list_refs self kind = Inr (sort r)"
    using k r by (simp add: xdg_app_dir_list_refs_def g_file_get_child_def g_file_query_exists_def
        g_ptr_array_sort_strvcmp_def)
  have "distinct (map ?f (name_triples names))"
    using distinct_name_triples [OF wf] ref_of_triples_inj [OF wf] by (simp add: distinct_map)
  then have d: "distinct r" using mset_eq_imp_distinct_iff [OF mr] by simp
  have sr: "set r = ?f ` set (name_triples names)"
    using mset_eq_setD [OF mr] by simp
  have lk: "\<And>n a b. lstat (basedir self) [kind, n, a, b] = lstat (Directory names) [n, a, b]"
    using root mk by simp
  have S: "?S = {ref_of_parts kind n a b |n a b. (n, a, b) \<in> set (name_triples names)}"
    by (simp only: lk name_triples_lstat [OF wf])
  have "set r = ?S"
    unfolding S sr by force
  then show "\<exists>refs. xdg_app_dir_list_refs self kind = Inr refs \<and> sorted refs \<and> distinct refs \<and> set refs = ?S"
    using res d by simp
qed


lemma ex_refs_store_listing:
  "xdg_app_dir_list_refs ex_refs_store ''app'' =
     Inr [''app/data/x86_64/stable'', ''app/org.gnome.Builder/i386/master'',
          ''app/org.test.Hello/x86_64/master'', ''app/org.test.Hello/x86_64/stable'']"
  by (simp add: xdg_app_dir_list_refs_def ex_refs_store_def g_file_get_child_def
      g_file_query_exists_def xdg_app_dir_list_refs_for_name_def g_ptr_array_sort_strvcmp_def
      ref_of_parts_def)

theorem list_refs_sorted_distinct_witness:
  "wf_node (basedir ex_refs_store)
   \<and> xdg_app_dir_list_refs ex_refs_store ''app'' =
       Inr [''app/data/x86_64/stable'', ''app/org.gnome.Builder/i386/master'',
            ''app/org.test.Hello/x86_64/master'', ''app/org.test.Hello/x86_64/stable'']
   \<and> sorted [''app/data/x86_64/stable'', ''app/org.gnome.Builder/i386/master'',
            ''app/org.test.Hello/x86_64/master'', ''app/org.test.Hello/x86_64/stable'']
   \<and> distinct [''app/data/x86_64/stable'', ''app/org.gnome.Builder/i386/master'',
            ''app/org.test.Hello/x86_64/master'', ''app/org.test.Hello/x86_64/stable'']
   \<and> lstat (basedir ex_refs_store) [''runtime''] = Inl G_IO_ERROR_NOT_FOUND
   \<and> xdg_app_dir_list_refs ex_refs_store ''runtime'' = Inr []"
proof -
  have wf: "wf_node (basedir ex_refs_store)"
    by (simp add: ex_refs_store_def valid_name_def)
  obtain names where names: "lstat (basedir ex_refs_store) [''app''] = Inr (Directory names)"
    by (simp add: ex_refs_store_def)
  have nf: "lstat (basedir ex_refs_store) [''runtime''] = Inl G_IO_ERROR_NOT_FOUND"
    by (simp add: ex_refs_store_def)
  from list_refs_sorted_distinct [OF wf, of "''app''" names] names ex_refs_store_listing
  have "sorted [''app/data/x86_64/stable'', ''app/org.gnome.Builder/i386/master'',
            ''app/org.test.Hello/x86_64/master'', ''app/org.test.Hello/x86_64/stable'']"
    and "distinct [''app/data/x86_64/stable'', ''app/org.gnome.Builder/i386/master'',
            ''app/org.test.Hello/x86_64/master'', ''app/org.test.Hello/x86_64/stable'']"
    by auto
  moreover from list_refs_sorted_distinct [OF wf, of "''runtime''"] nf
  have "xdg_app_dir_list_refs ex_refs_store ''runtime'' = Inr []" by simp
  ultimately show ?thesis using wf nf ex_refs_store_listing by simp
qed

text \<open>The claim as the specification states it (a directory called \<^verbatim>\<open>data\<close> directly
  under \<^verbatim>\<open><base>/<kind>/\<close> is skipped) fails: the branch below it is listed.\<close>

theorem list_refs_data_name_counterexample:
  "lstat (basedir ex_data_store) [''app'', ''data''] =
       Inr (Directory [(''x86_64'', Directory [(''stable'', Directory [])])])
   \<and> xdg_app_dir_list_refs ex_data_store ''app'' = Inr [''app/data/x86_64/stable'']"
  by (simp add: xdg_app_dir_list_refs_def ex_data_store_def g_file_get_child_def
      g_file_query_exists_def xdg_app_dir_list_refs_for_name_def g_ptr_array_sort_strvcmp_def
      ref_of_parts_def)

subsection \<open>Undeploying the active checksum\<close>

lemma is_ref_deploy_dir:
  assumes "is_ref ref"
  obtains kind rest where "xdg_app_dir_get_deploy_dir ref = kind # rest"
    "kind \<noteq> ''repo''" "kind \<noteq> ''.removed''"
proof -
  from assms obtain kind name arch branch where
    "g_strsplit_slash ref = [kind, name, arch, branch]" "kind = ''app'' \<or> kind = ''runtime''"
    by (auto simp: is_ref_def split: list.splits)
  then have "xdg_app_dir_get_deploy_dir ref = kind # [name, arch, branch]"
    "kind \<noteq> ''repo''" "kind \<noteq> ''.removed''"
    by (auto simp: xdg_app_dir_get_deploy_dir_def g_file_resolve_relative_path_def)
  then show ?thesis by (rule that)
qed

lemma lstat_put_other_top:
  "x \<noteq> y \<Longrightarrow> lstat (put_at t (x # p) v) (y # q) = lstat t (y # q)"
  using lstat_put_diverge [of x y t "[]" p v q] by simp

lemma ensure_repo_lstat:
  assumes "xdg_app_dir_ensure_repo w self = (r, self1)" "k \<noteq> ''repo''"
  shows "lstat (basedir self1) (k # q) = lstat (basedir self) (k # q)"
  using assms
  by (auto simp: xdg_app_dir_ensure_repo_def Let_def g_file_get_child_def gs_shutil_rm_rf_def
      lstat_put_other_top split: option.splits if_splits sum.splits)

lemma ensure_directory_lstat:
  assumes "gs_file_ensure_directory t (x # p) = Inr t'" "y \<noteq> x"
  shows "lstat t' (y # q) = lstat t (y # q)"
  using assms by (cases t) (auto simp: update_conv' split: sum.splits)

lemma lstat_parent_of_child:
  assumes "lstat t (p @ [x]) = Inr n"
  obtains es where "lstat t p = Inr (Directory es)" "map_of es x = Some n"
proof -
  from assms obtain m where m: "lstat t p = Inr m" "lstat m [x] = Inr n"
    by (auto simp: lstat_append split: sum.splits)
  from lstat_Cons_Inr [OF m(2)] obtain es where "m = Directory es" "map_of es x = Some n" by auto
  with m(1) show ?thesis by (auto intro: that)
qed

lemma set_active_Some_entries:
  assumes "xdg_app_dir_set_active rnd self ref (Some c) = (Inr (), self')"
  obtains es where "lstat (basedir self) (xdg_app_dir_get_deploy_dir ref) = Inr (Directory es)"
    "lstat (basedir self') (xdg_app_dir_get_deploy_dir ref) =
       Inr (Directory (AList.update ''active'' (Symlink c)
              (AList.delete (gs_fileutil_gen_tmp_name ''.active-'' rnd [])
                 (AList.update (gs_fileutil_gen_tmp_name ''.active-'' rnd []) (Symlink c) es))))"
proof -
  define base where "base = xdg_app_dir_get_deploy_dir ref"
  define tmp where "tmp = gs_fileutil_gen_tmp_name ''.active-'' rnd []"
  have ne: "tmp \<noteq> ''active''" by (simp add: tmp_def tmp_not_active)
  from assms obtain root1 root2 where
    r1: "g_file_make_symbolic_link (basedir self) (base @ [tmp]) c = Inr root1" and
    r2: "gs_file_rename root1 (base @ [tmp]) (base @ [''active'']) = Inr root2" and
    s': "self' = self\<lparr>basedir := root2\<rparr>"
    by (auto simp: xdg_app_dir_set_active_def Let_def g_file_get_child_def base_def tmp_def
        split: sum.splits)
  from r1 obtain es where
    b0: "lstat (basedir self) base = Inr (Directory es)" and
    root1: "root1 = put_at (basedir self) (base @ [tmp]) (Some (Symlink c))"
    by (auto simp: g_file_make_symbolic_link_def split: if_splits sum.splits node.splits option.splits)
  have b1: "lstat root1 base = Inr (Directory (AList.update tmp (Symlink c) es))"
    using lstat_put_parent [OF b0, of tmp "Some (Symlink c)"] by (simp add: root1)
  have t1: "lstat root1 (base @ [tmp]) = Inr (Symlink c)"
    using lstat_put_child [OF b0, of tmp "Some (Symlink c)" tmp "[]"] by (simp add: root1)
  have np: "\<not> is_prefix (base @ [tmp]) (base @ [''active''])"
    using ne by (simp add: is_prefix_def)
  from r2 have root2: "root2 = put_at (put_at root1 (base @ [tmp]) None) (base @ [''active'']) (Some (Symlink c))"
    using ne np by (auto simp: gs_file_rename_def t1 b1 split: if_splits option.splits)
  have b2: "lstat (put_at root1 (base @ [tmp]) None) base = Inr (Directory (AList.delete tmp (AList.update tmp (Symlink c) es)))"
    using lstat_put_parent [OF b1, of tmp None] by simp
  have "lstat (basedir self') base = Inr (Directory (AList.update ''active'' (Symlink c)
              (AList.delete tmp (AList.update tmp (Symlink c) es))))"
    using lstat_put_parent [OF b2, of "''active''" "Some (Symlink c)"] by (simp add: root2 s')
  with b0 show ?thesis using that by (simp add: base_def tmp_def)
qed

lemma set_active_None_entries:
  assumes "xdg_app_dir_set_active rnd self ref None = (Inr (), self')"
    and "lstat (basedir self) (xdg_app_dir_get_deploy_dir ref) = Inr (Directory es)"
  shows "lstat (basedir self') (xdg_app_dir_get_deploy_dir ref) = Inr (Directory (AList.delete ''active'' es))"
proof -
  define base where "base = xdg_app_dir_get_deploy_dir ref"
  note b = assms(2) [folded base_def]
  have la: "lstat (basedir self) (base @ [''active'']) =
      (case map_of es ''active'' of None \<Rightarrow> Inl G_IO_ERROR_NOT_FOUND | Some n \<Rightarrow> Inr n)"
    using b by (simp add: lstat_append split: option.splits)
  show ?thesis
  proof (cases "map_of es ''active''")
    case None
    then have "''active'' \<notin> fst ` set es" by (simp add: map_of_eq_None_iff)
    then have "AList.delete ''active'' es = es" by simp
    moreover have "self' = self"
      using assms(1) la None
      by (simp add: xdg_app_dir_set_active_def g_file_delete_def g_file_get_child_def base_def Let_def)
    ultimately show ?thesis using b by (simp add: base_def)
  next
    case (Some n)
    then have "self' = self\<lparr>basedir := put_at (basedir self) (base @ [''active'']) None\<rparr>"
      using assms(1) la
      by (auto simp: xdg_app_dir_set_active_def g_file_delete_def g_file_get_child_def base_def
          Let_def split: node.splits if_splits)
    then show ?thesis using lstat_put_parent [OF b, of "''active''" None] by (simp add: base_def)
  qed
qed


lemma filter_update_irrelevant:
  "(\<And>v'. \<not> P (k, v')) \<Longrightarrow> filter P (AList.update k v al) = filter P al"
  by (induction al) auto

lemma filter_delete:
  "filter P (AList.delete k al) = filter (\<lambda>e. fst e \<noteq> k) (filter P al)"
  by (induction al) (auto simp: AList.delete_eq)

lemma deployed_entry_active [simp]: "\<not> deployed_entry (''active'', v)"
  by (simp add: deployed_entry_def split: node.splits)

lemma deployed_entry_tmp [simp]: "\<not> deployed_entry (gs_fileutil_gen_tmp_name ''.active-'' rnd [], v)"
  by (simp add: deployed_entry_def gs_fileutil_gen_tmp_name_def split: node.splits)

lemma list_deployed_entries:
  "lstat (basedir self) (xdg_app_dir_get_deploy_dir ref) = Inr (Directory es) \<Longrightarrow>
   xdg_app_dir_list_deployed self ref = Inr (map fst (filter deployed_entry es))"
  by (simp add: xdg_app_dir_list_deployed_def list_deployed_loop_filter)

lemma read_active_entries:
  "lstat (basedir self) (xdg_app_dir_get_deploy_dir ref) = Inr (Directory es) \<Longrightarrow>
   xdg_app_dir_read_active self ref =
     (case map_of es ''active'' of Some (Symlink t) \<Rightarrow> Some t | _ \<Rightarrow> None)"
  by (simp add: xdg_app_dir_read_active_def g_file_get_child_def lstat_append
      split: option.splits node.splits)

lemma some_other_deployment_filter:
  "some_other_deployment ds c = (case filter (\<lambda>d. d \<noteq> c) ds of [] \<Rightarrow> None | d # rest \<Rightarrow> Some d)"
  by (induction ds) auto

lemma undeploy_repoint_entries:
  assumes "undeploy_repoint_active w self ref c = (Inr (), self2)"
    and "xdg_app_dir_read_active self ref = Some c"
    and b: "lstat (basedir self) (xdg_app_dir_get_deploy_dir ref) = Inr (Directory es)"
  obtains es2 where "lstat (basedir self2) (xdg_app_dir_get_deploy_dir ref) = Inr (Directory es2)"
    "filter deployed_entry es2 = filter deployed_entry es"
    "map_of es2 ''active'' = map_option Symlink (some_other_deployment (map fst (filter deployed_entry es)) c)"
proof -
  let ?some = "some_other_deployment (map fst (filter deployed_entry es)) c"
  from assms have sa: "xdg_app_dir_set_active (rnd_active w) self ref ?some = (Inr (), self2)"
    by (simp add: undeploy_repoint_active_def list_deployed_entries)
  show ?thesis
  proof (cases ?some)
    case None
    from set_active_None_entries [OF sa [unfolded None] b]
    have "lstat (basedir self2) (xdg_app_dir_get_deploy_dir ref) = Inr (Directory (AList.delete ''active'' es))" .
    moreover have "filter deployed_entry (AList.delete ''active'' es) = filter deployed_entry es"
      by (induction es) (auto simp: AList.delete_eq)
    moreover have "map_of (AList.delete ''active'' es) ''active'' = map_option Symlink ?some"
      by (simp add: None delete_conv')
    ultimately show ?thesis by (rule that)
  next
    case (Some d)
    let ?tmp = "gs_fileutil_gen_tmp_name ''.active-'' (rnd_active w) []"
    let ?es2 = "AList.update ''active'' (Symlink d) (AList.delete ?tmp (AList.update ?tmp (Symlink d) es))"
    from set_active_Some_entries [OF sa [unfolded Some]] b
    have "lstat (basedir self2) (xdg_app_dir_get_deploy_dir ref) = Inr (Directory ?es2)"
      by auto
    moreover have "filter deployed_entry ?es2 = filter deployed_entry es"
      by (simp add: filter_update_irrelevant filter_delete)
         (induction es, auto)
    moreover have "map_of ?es2 ''active'' = map_option Symlink ?some"
      by (simp add: Some update_conv')
    ultimately show ?thesis by (rule that)
  qed
qed


lemma is_checksum_not_active:
  assumes "is_checksum c"
  shows "c \<noteq> ''active''"
proof
  assume "c = ''active''"
  then have "length c = 6" by simp
  moreover have "length c = 64" using assms unfolding is_checksum_def by (rule conjunct1)
  ultimately show False by simp
qed

lemma undeploy_deploy_base:
  assumes ref: "is_ref ref" and c: "c \<noteq> ''active''"
    and act: "xdg_app_dir_read_active self ref = Some c"
    and un: "xdg_app_dir_undeploy w self ref c force_remove = (Inr (), self')"
  obtains es es2 where
    "lstat (basedir self) (xdg_app_dir_get_deploy_dir ref) = Inr (Directory es)"
    "lstat (basedir self') (xdg_app_dir_get_deploy_dir ref) = Inr (Directory (AList.delete c es2))"
    "filter deployed_entry es2 = filter deployed_entry es"
    "map_of es2 ''active'' = map_option Symlink (some_other_deployment (map fst (filter deployed_entry es)) c)"
proof -
  define base where "base = xdg_app_dir_get_deploy_dir ref"
  from is_ref_deploy_dir [OF ref] obtain kind rest where
    base: "base = kind # rest" and k1: "kind \<noteq> ''repo''" and k2: "kind \<noteq> ''.removed''"
    unfolding base_def by blast
  define tmp2 where "tmp2 = gs_fileutil_gen_tmp_name [] (rnd_removed w) c"
  from un have ex: "g_file_query_exists (basedir self) (base @ [c])"
    by (auto simp: xdg_app_dir_undeploy_def Let_def g_file_get_child_def base_def split: if_splits)
  obtain r1 self1 where e1: "xdg_app_dir_ensure_repo w self = (r1, self1)"
    by (cases "xdg_app_dir_ensure_repo w self")
  obtain r2 self2 where e2: "undeploy_repoint_active w self1 ref c = (r2, self2)"
    by (cases "undeploy_repoint_active w self1 ref c")
  note defs = xdg_app_dir_undeploy_def Let_def g_file_get_child_def base_def [symmetric]
    tmp2_def [symmetric] xdg_app_dir_get_removed_dir_def
  have r1: "r1 = Inr ()" using un ex e1 by (cases r1) (simp_all add: defs)
  have r2: "r2 = Inr ()" using un ex e1 r1 e2 by (cases r2) (simp_all add: defs)
  obtain root3 where s3: "gs_file_ensure_directory (basedir self2) [''.removed''] = Inr root3"
    using un ex e1 r1 e2 r2
    by (cases "gs_file_ensure_directory (basedir self2) [''.removed'']") (simp_all add: defs)
  obtain root4 where s4: "gs_file_rename root3 (base @ [c]) [''.removed'', tmp2] = Inr root4"
    using un ex e1 r1 e2 r2 s3
    by (cases "gs_file_rename root3 (base @ [c]) [''.removed'', tmp2]") (simp_all add: defs)
  have s5: "basedir self' = root4 \<or> basedir self' = gs_shutil_rm_rf root4 [''.removed'', tmp2]"
    using un ex e1 r1 e2 r2 s3 s4 by (auto simp: defs split: if_splits)
  note s1 = e1 [unfolded r1] and s2 = e2 [unfolded r2]
  from ex obtain n where "lstat (basedir self) (base @ [c]) = Inr n"
    by (auto simp: g_file_query_exists_def split: sum.splits)
  from lstat_parent_of_child [OF this] obtain es where
    b0: "lstat (basedir self) base = Inr (Directory es)" by blast
  have f1: "\<And>q. lstat (basedir self1) (base @ q) = lstat (basedir self) (base @ q)"
    using ensure_repo_lstat [OF s1 k1] by (simp add: base)
  have b1: "lstat (basedir self1) base = Inr (Directory es)"
    using f1 [of "[]"] b0 by simp
  have act1: "xdg_app_dir_read_active self1 ref = Some c"
    using act f1 [of "[''active'']"]
    by (simp add: xdg_app_dir_read_active_def g_file_get_child_def base_def)
  from undeploy_repoint_entries [OF s2 act1 b1 [unfolded base_def]] obtain es2 where
    b2: "lstat (basedir self2) base = Inr (Directory es2)" and
    fe: "filter deployed_entry es2 = filter deployed_entry es" and
    ma: "map_of es2 ''active'' = map_option Symlink (some_other_deployment (map fst (filter deployed_entry es)) c)"
    unfolding base_def by blast
  have b3: "lstat root3 base = Inr (Directory es2)"
    using ensure_directory_lstat [OF s3, of kind rest] k2 b2 by (simp add: base)
  have neq: "base @ [c] \<noteq> [''.removed'', tmp2]" "\<not> is_prefix (base @ [c]) [''.removed'', tmp2]"
    using k2 by (simp_all add: base is_prefix_def)
  obtain src where src: "lstat root3 (base @ [c]) = Inr src"
    using s4 by (cases "lstat root3 (base @ [c])") (simp_all add: gs_file_rename_def)
  have root4: "root4 = put_at (put_at root3 (base @ [c]) None) [''.removed'', tmp2] (Some src)"
  proof (cases "lstat root3 [''.removed'']")
    case (Inl e)
    then show ?thesis using s4 src by (simp add: gs_file_rename_def)
  next
    case (Inr m)
    then show ?thesis using s4 src neq
      by (cases m; cases "may_replace src (map_of (case m of Directory es \<Rightarrow> es) tmp2)")
         (simp_all add: gs_file_rename_def)
  qed
  have "lstat (put_at root3 (base @ [c]) None) base = Inr (Directory (AList.delete c es2))"
    using lstat_put_parent [OF b3, of c None] by simp
  then have b4: "lstat root4 base = Inr (Directory (AList.delete c es2))"
    using k2 by (simp add: root4 base lstat_put_other_top)
  have "lstat (basedir self') base = Inr (Directory (AList.delete c es2))"
    using s5 b4 k2 by (auto simp: gs_shutil_rm_rf_def base lstat_put_other_top)
  with b0 fe ma show ?thesis using that unfolding base_def by blast
qed

text \<open>
  Claim C1. Let \<open>ref\<close> be a ref and \<open>c\<close> a checksum of the data model, with the
  \<^verbatim>\<open>active\<close> link of the ref pointing at \<open>c\<close>. When \<^verbatim>\<open>xdg_app_dir_undeploy\<close> succeeds,
  the checksums deployed under the deploy base afterwards are those deployed before
  without \<open>c\<close>; if there is none, \<^verbatim>\<open>active\<close> is absent afterwards, and otherwise it
  points at one of them.
\<close>

theorem undeploy_repoints_active:
  assumes "is_ref ref" and "is_checksum c"
    and "xdg_app_dir_read_active self ref = Some c"
    and "xdg_app_dir_undeploy w self ref c force_remove = (Inr (), self')"
  shows "\<exists>deployed remaining.
           xdg_app_dir_list_deployed self ref = Inr deployed \<and>
           xdg_app_dir_list_deployed self' ref = Inr remaining \<and>
           remaining = filter (\<lambda>d. d \<noteq> c) deployed \<and>
           (if remaining = [] then xdg_app_dir_read_active self' ref = None
            else \<exists>d \<in> set remaining. xdg_app_dir_read_active self' ref = Some d)"
proof -
  have c: "c \<noteq> ''active''" using assms(2) by (rule is_checksum_not_active)
  from undeploy_deploy_base [OF assms(1) c assms(3,4)] obtain es es2 where
    b0: "lstat (basedir self) (xdg_app_dir_get_deploy_dir ref) = Inr (Directory es)" and
    b5: "lstat (basedir self') (xdg_app_dir_get_deploy_dir ref) = Inr (Directory (AList.delete c es2))" and
    fe: "filter deployed_entry es2 = filter deployed_entry es" and
    ma: "map_of es2 ''active'' = map_option Symlink (some_other_deployment (map fst (filter deployed_entry es)) c)"
    by blast
  let ?deployed = "map fst (filter deployed_entry es)"
  let ?remaining = "filter (\<lambda>d. d \<noteq> c) ?deployed"
  have l0: "xdg_app_dir_list_deployed self ref = Inr ?deployed"
    using b0 by (rule list_deployed_entries)
  have "map fst (filter deployed_entry (AList.delete c es2)) = ?remaining"
    by (simp add: filter_delete fe filter_map comp_def)
  then have l5: "xdg_app_dir_list_deployed self' ref = Inr ?remaining"
    using list_deployed_entries [OF b5] by simp
  have "map_of (AList.delete c es2) ''active'' = map_option Symlink (some_other_deployment ?deployed c)"
    using c ma by (simp add: delete_conv')
  then have r5: "xdg_app_dir_read_active self' ref =
      (case ?remaining of [] \<Rightarrow> None | d # rest \<Rightarrow> Some d)"
    using read_active_entries [OF b5]
    by (simp add: some_other_deployment_filter split: list.splits)
  have "if ?remaining = [] then xdg_app_dir_read_active self' ref = None
        else \<exists>d \<in> set ?remaining. xdg_app_dir_read_active self' ref = Some d"
    unfolding r5 by (cases ?remaining) simp_all
  with l0 l5 show ?thesis by blast
qed


lemmas ex_eval = xdg_app_dir_undeploy_def xdg_app_dir_ensure_repo_def undeploy_repoint_active_def
  xdg_app_dir_read_active_def xdg_app_dir_list_deployed_def xdg_app_dir_set_active_def
  xdg_app_dir_get_removed_dir_def g_file_get_child_def g_file_query_exists_def
  g_file_make_symbolic_link_def gs_file_rename_def g_file_delete_def gs_shutil_rm_rf_def
  gs_fileutil_gen_tmp_name_def dir_is_locked_def is_prefix_def may_replace_def
  first_char_not_dot_def g_file_resolve_relative_path_def g_strsplit_slash_def
  ex_deploy_dir ex_store_def ex_tree_def ex_deploy_base_def ex_checkout_def ex_outside_def
  ex_repo_def ex_names Let_def

lemma ex_undeploy_result:
  "xdg_app_dir_undeploy ex_outside ex_store ex_ref ex_sum_a False =
     (Inr (),
      \<lparr>user = True,
       basedir = ex_tree
         [(''origin'', Regular ''test-repo''),
          (''.active-XXXXXXXX'', Symlink ex_sum_a),
          (ex_name_z, ex_checkout),
          (''active'', Symlink ex_name_z),
          (ex_sum_b, ex_checkout),
          (''notes'', Directory [])]
         [(''repo'', Directory []), (''.removed'', Directory [])],
       repo = Some ex_repo\<rparr>)"
  by (simp add: ex_eval)

lemma ex_undeploy_last_result:
  "xdg_app_dir_undeploy ex_outside
      (ex_store\<lparr>basedir := ex_tree [(ex_sum_b, ex_checkout), (''active'', Symlink ex_sum_b)] []\<rparr>)
      ex_ref ex_sum_b False =
     (Inr (),
      \<lparr>user = True,
       basedir = ex_tree [] [(''repo'', Directory []), (''.removed'', Directory [])],
       repo = Some ex_repo\<rparr>)"
  by (simp add: ex_eval)

text \<open>In the example store the first checksum is active and two other names are
  deployed: after the undeploy, \<^verbatim>\<open>active\<close> points at the first of them in the order of
  the enumeration. Where the only deployment is removed, \<^verbatim>\<open>active\<close> is gone.\<close>

theorem undeploy_repoints_active_witness:
  "is_ref ex_ref \<and> is_checksum ex_sum_a \<and> is_checksum ex_sum_b
   \<and> xdg_app_dir_read_active ex_store ex_ref = Some ex_sum_a
   \<and> fst (xdg_app_dir_undeploy ex_outside ex_store ex_ref ex_sum_a False) = Inr ()
   \<and> xdg_app_dir_list_deployed ex_store ex_ref = Inr [ex_sum_a, ex_name_z, ex_sum_b]
   \<and> xdg_app_dir_list_deployed
        (snd (xdg_app_dir_undeploy ex_outside ex_store ex_ref ex_sum_a False)) ex_ref
       = Inr [ex_name_z, ex_sum_b]
   \<and> xdg_app_dir_read_active
        (snd (xdg_app_dir_undeploy ex_outside ex_store ex_ref ex_sum_a False)) ex_ref
       = Some ex_name_z
   \<and> xdg_app_dir_read_active
        (ex_store\<lparr>basedir := ex_tree [(ex_sum_b, ex_checkout), (''active'', Symlink ex_sum_b)] []\<rparr>)
        ex_ref = Some ex_sum_b
   \<and> xdg_app_dir_list_deployed
        (snd (xdg_app_dir_undeploy ex_outside
           (ex_store\<lparr>basedir := ex_tree [(ex_sum_b, ex_checkout), (''active'', Symlink ex_sum_b)] []\<rparr>)
           ex_ref ex_sum_b False)) ex_ref = Inr []
   \<and> xdg_app_dir_read_active
        (snd (xdg_app_dir_undeploy ex_outside
           (ex_store\<lparr>basedir := ex_tree [(ex_sum_b, ex_checkout), (''active'', Symlink ex_sum_b)] []\<rparr>)
           ex_ref ex_sum_b False)) ex_ref = None"
proof -
  let ?s = "ex_store\<lparr>basedir := ex_tree [(ex_sum_b, ex_checkout), (''active'', Symlink ex_sum_b)] []\<rparr>"
  have r: "is_ref ex_ref"
    by (simp add: is_ref_def ex_ref_def g_strsplit_slash_def)
  have ca: "is_checksum ex_sum_a" and cb: "is_checksum ex_sum_b"
    by (simp_all add: is_checksum_def ex_names)
  have a1: "xdg_app_dir_read_active ex_store ex_ref = Some ex_sum_a"
    by (simp add: xdg_app_dir_read_active_def g_file_get_child_def ex_store_def ex_lstat_child
        ex_deploy_base_def ex_names)
  have a2: "xdg_app_dir_read_active ?s ex_ref = Some ex_sum_b"
    by (simp add: xdg_app_dir_read_active_def g_file_get_child_def ex_store_def ex_lstat_child
        ex_names)
  have l1: "xdg_app_dir_list_deployed ex_store ex_ref = Inr [ex_sum_a, ex_name_z, ex_sum_b]"
    by (simp add: xdg_app_dir_list_deployed_def ex_store_def ex_lstat first_char_not_dot_def
        ex_deploy_base_def ex_checkout_def ex_names)
  have l2: "xdg_app_dir_list_deployed ?s ex_ref = Inr [ex_sum_b]"
    by (simp add: xdg_app_dir_list_deployed_def ex_store_def ex_lstat first_char_not_dot_def
        ex_checkout_def ex_names)
  have n: "ex_name_z \<noteq> ex_sum_a" "ex_sum_b \<noteq> ex_sum_a" by (simp_all add: ex_names)
  from undeploy_repoints_active [OF r ca a1 ex_undeploy_result] l1 n
  have "xdg_app_dir_list_deployed
        (snd (xdg_app_dir_undeploy ex_outside ex_store ex_ref ex_sum_a False)) ex_ref
       = Inr [ex_name_z, ex_sum_b]"
    by (auto simp: ex_undeploy_result)
  moreover from undeploy_repoints_active [OF r cb a2 ex_undeploy_last_result] l2
  have "xdg_app_dir_list_deployed (snd (xdg_app_dir_undeploy ex_outside ?s ex_ref ex_sum_b False)) ex_ref = Inr []
     \<and> xdg_app_dir_read_active (snd (xdg_app_dir_undeploy ex_outside ?s ex_ref ex_sum_b False)) ex_ref = None"
    by (auto simp: ex_undeploy_last_result)
  moreover have "xdg_app_dir_read_active
        (snd (xdg_app_dir_undeploy ex_outside ex_store ex_ref ex_sum_a False)) ex_ref
       = Some ex_name_z"
    unfolding ex_undeploy_result
    by (simp add: xdg_app_dir_read_active_def g_file_get_child_def ex_lstat_child ex_names)
  ultimately show ?thesis using r ca cb a1 a2 l1 by (simp add: ex_undeploy_result)
qed

subsection \<open>The rewritten \<^verbatim>\<open>Exec\<close> lines\<close>

lemma digits_upt: "[48..<58] = map of_char ''0123456789''"
  by code_simp

lemma uppers_upt: "[65..<91] = map of_char ''ABCDEFGHIJKLMNOPQRSTUVWXYZ''"
  by code_simp

lemma lowers_upt: "[97..<123] = map of_char ''abcdefghijklmnopqrstuvwxyz''"
  by code_simp

lemma of_char_in_range:
  assumes "[a..<Suc b] = map of_char str" "a \<le> (of_char c :: nat)" "(of_char c :: nat) \<le> b"
  shows "c \<in> set str"
proof -
  have "(of_char c :: nat) \<in> set [a..<Suc b]" using assms(2,3) by auto
  then have "(of_char c :: nat) \<in> of_char ` set str" by (simp only: assms(1) set_map)
  then show ?thesis by (simp add: inj_image_mem_iff [OF inj_of_char])
qed

lemma g_ascii_isalnum_iff:
  "g_ascii_isalnum c \<longleftrightarrow> c \<in> set ''ABCDEFGHIJKLMNOPQRSTUVWXYZabcdefghijklmnopqrstuvwxyz0123456789''"
proof
  assume "c \<in> set ''ABCDEFGHIJKLMNOPQRSTUVWXYZabcdefghijklmnopqrstuvwxyz0123456789''"
  then show "g_ascii_isalnum c"
    by (auto simp: g_ascii_isalnum_def)
next
  assume a: "g_ascii_isalnum c"
  let ?n = "of_char c :: nat"
  from a consider "48 \<le> ?n \<and> ?n \<le> 57" | "65 \<le> ?n \<and> ?n \<le> 90" | "97 \<le> ?n \<and> ?n \<le> 122"
    by (auto simp: g_ascii_isalnum_def less_eq_char_def)
  then show "c \<in> set ''ABCDEFGHIJKLMNOPQRSTUVWXYZabcdefghijklmnopqrstuvwxyz0123456789''"
  proof cases
    case 1
    then have "c \<in> set ''0123456789''"
      using of_char_in_range [of 48 57 "''0123456789''" c] digits_upt by simp
    then show ?thesis by auto
  next
    case 2
    then have "c \<in> set ''ABCDEFGHIJKLMNOPQRSTUVWXYZ''"
      using of_char_in_range [of 65 90 "''ABCDEFGHIJKLMNOPQRSTUVWXYZ''" c] uppers_upt by simp
    then show ?thesis by auto
  next
    case 3
    then have "c \<in> set ''abcdefghijklmnopqrstuvwxyz''"
      using of_char_in_range [of 97 122 "''abcdefghijklmnopqrstuvwxyz''" c] lowers_upt by simp
    then show ?thesis by auto
  qed
qed


lemma need_quotes_iff:
  "need_quotes str \<longleftrightarrow> (\<exists>c \<in> set str. c \<notin> set plain_chars)"
proof -
  have "\<And>p. (\<not> g_ascii_isalnum p \<and> p \<notin> set ''-_%.=:/@'') = (p \<notin> set plain_chars)"
    unfolding g_ascii_isalnum_iff plain_chars_def by auto
  then show ?thesis by (induction str) simp_all
qed

lemma append_args_concat:
  "append_args new_exec args = new_exec @ concat (map (\<lambda>arg. '' '' @ maybe_quote arg) args)"
  by (induction args arbitrary: new_exec) simp_all

lemma map_of_map_group:
  "map_of (map_group f g kf) g' = (if g' = g then map_option f (map_of kf g) else map_of kf g')"
  by (induction kf) auto

lemma lookup_remove_key_lines:
  "lookup_key (remove_key_lines ls k) k' = (if k' = k then None else lookup_key ls k')"
  by (induction ls k rule: remove_key_lines.induct) auto

lemma lookup_set_key_line:
  "lookup_key (set_key_line ls k v) k' = (if k' = k then Some v else lookup_key ls k')"
  by (induction ls k v rule: set_key_line.induct) auto

lemma get_string_remove_key:
  "g_key_file_get_string (g_key_file_remove_key kf g k) g' k' =
     (if g' = g \<and> k' = k then None else g_key_file_get_string kf g' k')"
  by (auto simp: g_key_file_get_string_def g_key_file_remove_key_def map_of_map_group
      lookup_remove_key_lines split: option.splits)

lemma get_string_set_string:
  "g_key_file_get_string (g_key_file_set_string kf g k v) g' k' =
     (if g' = g \<and> k' = k then Some v else g_key_file_get_string kf g' k')"
proof (cases "g \<in> set (map fst kf)")
  case True
  then obtain ls where "map_of kf g = Some ls"
    by (metis (no_types) map_of_eq_None_iff not_None_eq set_map)
  then show ?thesis using True
    by (auto simp: g_key_file_get_string_def g_key_file_set_string_def map_of_map_group
      lookup_set_key_line split: option.splits)
next
  case False
  then have "map_of kf g = None" by (simp add: map_of_eq_None_iff)
  then show ?thesis using False
    by (auto simp: g_key_file_get_string_def g_key_file_set_string_def map_add_def
        split: option.splits)
qed

lemma map_fst_map_group: "map fst (map_group f g kf) = map fst kf"
  by (induction kf) auto

lemma rewrite_groups_exec:
  "distinct grps \<Longrightarrow>
   g_key_file_get_string (rewrite_groups ops a b r grps kf) g ''Exec'' =
     (if g \<in> set grps then Some (new_exec_line ops a b r (g_key_file_get_string kf g ''Exec''))
      else g_key_file_get_string kf g ''Exec'')"
proof (induction grps arbitrary: kf)
  case Nil
  then show ?case by simp
next
  case (Cons g0 grps)
  then show ?case
    by (simp add: Let_def get_string_set_string get_string_remove_key)
qed

lemma new_exec_line_eq:
  "new_exec_line ops (maybe_quote app) (maybe_quote branch) (maybe_quote arch) old_exec =
     bindir ops @ ''/xdg-app run --branch='' @ maybe_quote branch @ '' --arch='' @ maybe_quote arch
       @ (case (case old_exec of None \<Rightarrow> None | Some old \<Rightarrow> shell_parse_argv ops old) of
            Some (cmd0 # args) \<Rightarrow>
              '' --command='' @ maybe_quote cmd0 @ '' '' @ maybe_quote app
                @ concat (map (\<lambda>arg. '' '' @ maybe_quote arg) args)
          | _ \<Rightarrow> '' '' @ maybe_quote app)"
  by (simp add: new_exec_line_def append_args_concat split: option.splits list.splits)

text \<open>
  Claim C3. When \<^verbatim>\<open>export_desktop_file\<close> rewrites a file whose contents parse to a
  key file, the value of \<^verbatim>\<open>Exec\<close> in every group of the key file that is written
  back is the launcher path with \<^verbatim>\<open>run --branch=<branch> --arch=<arch>\<close>, followed by
  \<^verbatim>\<open>--command=<cmd0>\<close> exactly when the group had an \<^verbatim>\<open>Exec\<close> whose tokenization
  succeeds with at least one token (\<open>cmd0\<close> being the first), then the application
  name, then the other tokens in their order. Every token put in (the branch, the
  arch, the command, the application name, the arguments) is shell-quoted if and only
  if it has a character outside \<^verbatim>\<open>[A-Za-z0-9_\-.%=:/@]\<close>, and is put in as it is
  otherwise. The groups of a key file are distinct, as GLib keeps them.
\<close>

theorem export_desktop_file_exec:
  assumes "export_desktop_file ops app branch arch name (Some (Regular contents)) = Inr new_data"
    and "key_file_load ops contents = Inr keyfile"
    and "distinct (g_key_file_get_groups keyfile)"
    and "grp \<in> set (g_key_file_get_groups keyfile)"
  shows "(\<exists>keyfile'. new_data = key_file_to_data ops keyfile' \<and>
           g_key_file_get_string keyfile' grp ''Exec'' =
             Some (bindir ops @ ''/xdg-app run --branch='' @ maybe_quote branch
                     @ '' --arch='' @ maybe_quote arch
                     @ (case (case g_key_file_get_string keyfile grp ''Exec'' of
                                None \<Rightarrow> None
                              | Some old \<Rightarrow> shell_parse_argv ops old) of
                          Some (cmd0 # args) \<Rightarrow>
                            '' --command='' @ maybe_quote cmd0 @ '' '' @ maybe_quote app
                              @ concat (map (\<lambda>arg. '' '' @ maybe_quote arg) args)
                        | _ \<Rightarrow> '' '' @ maybe_quote app)))
       \<and> (\<forall>token. maybe_quote token =
             (if \<exists>c \<in> set token. c \<notin> set plain_chars then g_shell_quote token else token))"
proof
  let ?kf' = "rewrite_groups ops (maybe_quote app) (maybe_quote branch) (maybe_quote arch)
                (g_key_file_get_groups keyfile) keyfile"
  from assms(1,2) have "new_data = key_file_to_data ops ?kf'"
    by (simp add: export_desktop_file_def Let_def split: if_splits)
  moreover have "g_key_file_get_string ?kf' grp ''Exec'' =
      Some (new_exec_line ops (maybe_quote app) (maybe_quote branch) (maybe_quote arch)
              (g_key_file_get_string keyfile grp ''Exec''))"
    using rewrite_groups_exec [OF assms(3)] assms(4) by simp
  ultimately show "\<exists>keyfile'. new_data = key_file_to_data ops keyfile' \<and>
           g_key_file_get_string keyfile' grp ''Exec'' =
             Some (bindir ops @ ''/xdg-app run --branch='' @ maybe_quote branch
                     @ '' --arch='' @ maybe_quote arch
                     @ (case (case g_key_file_get_string keyfile grp ''Exec'' of
                                None \<Rightarrow> None
                              | Some old \<Rightarrow> shell_parse_argv ops old) of
                          Some (cmd0 # args) \<Rightarrow>
                            '' --command='' @ maybe_quote cmd0 @ '' '' @ maybe_quote app
                              @ concat (map (\<lambda>arg. '' '' @ maybe_quote arg) args)
                        | _ \<Rightarrow> '' '' @ maybe_quote app))"
    unfolding new_exec_line_eq by blast
next
  show "\<forall>token. maybe_quote token =
             (if \<exists>c \<in> set token. c \<notin> set plain_chars then g_shell_quote token else token)"
    by (simp add: maybe_quote_def need_quotes_iff)
qed


text \<open>Scenario B of the specification: \<^verbatim>\<open>Exec=gedit %U\<close> becomes the launcher line
  with \<^verbatim>\<open>--command=gedit\<close>; the group without \<^verbatim>\<open>Exec\<close> gets the line without a
  command.\<close>

lemma ex_desktop_file_load:
  "key_file_load ex_export_ops ex_desktop_file = Inr ex_desktop_key_file"
  by code_simp

lemma ex_desktop_file_export:
  "export_desktop_file ex_export_ops ''org.test.Hello'' ''master'' ''x86_64''
      ''org.test.Hello.desktop'' (Some (Regular ex_desktop_file)) =
   Inr (''[Desktop Entry]'' @ [CHR 0x0A] @ ''Name=Hello'' @ [CHR 0x0A] @ ''Name[de]=Hallo'' @ [CHR 0x0A]
     @ ''Exec=/usr/bin/xdg-app run --branch=master --arch=x86_64 --command=gedit org.test.Hello %U''
     @ [CHR 0x0A] @ [CHR 0x0A] @ ''[Desktop Action new]'' @ [CHR 0x0A] @ ''Name=New window'' @ [CHR 0x0A]
     @ ''Exec=/usr/bin/xdg-app run --branch=master --arch=x86_64 org.test.Hello'' @ [CHR 0x0A])"
  by code_simp

theorem export_desktop_file_exec_witness:
  "export_desktop_file ex_export_ops ''org.test.Hello'' ''master'' ''x86_64''
      ''org.test.Hello.desktop'' (Some (Regular ex_desktop_file)) =
     Inr (''[Desktop Entry]'' @ [CHR 0x0A] @ ''Name=Hello'' @ [CHR 0x0A] @ ''Name[de]=Hallo'' @ [CHR 0x0A]
       @ ''Exec=/usr/bin/xdg-app run --branch=master --arch=x86_64 --command=gedit org.test.Hello %U''
       @ [CHR 0x0A] @ [CHR 0x0A] @ ''[Desktop Action new]'' @ [CHR 0x0A] @ ''Name=New window'' @ [CHR 0x0A]
       @ ''Exec=/usr/bin/xdg-app run --branch=master --arch=x86_64 org.test.Hello'' @ [CHR 0x0A])
   \<and> key_file_load ex_export_ops ex_desktop_file = Inr ex_desktop_key_file
   \<and> distinct (g_key_file_get_groups ex_desktop_key_file)
   \<and> ''Desktop Entry'' \<in> set (g_key_file_get_groups ex_desktop_key_file)
   \<and> (\<exists>keyfile'.
         ''[Desktop Entry]'' @ [CHR 0x0A] @ ''Name=Hello'' @ [CHR 0x0A] @ ''Name[de]=Hallo'' @ [CHR 0x0A]
           @ ''Exec=/usr/bin/xdg-app run --branch=master --arch=x86_64 --command=gedit org.test.Hello %U''
           @ [CHR 0x0A] @ [CHR 0x0A] @ ''[Desktop Action new]'' @ [CHR 0x0A] @ ''Name=New window'' @ [CHR 0x0A]
           @ ''Exec=/usr/bin/xdg-app run --branch=master --arch=x86_64 org.test.Hello'' @ [CHR 0x0A]
           = key_file_to_data ex_export_ops keyfile' \<and>
         g_key_file_get_string keyfile' ''Desktop Entry'' ''Exec'' =
           Some ''/usr/bin/xdg-app run --branch=master --arch=x86_64 --command=gedit org.test.Hello %U'')
   \<and> maybe_quote ''%U'' = ''%U''
   \<and> maybe_quote ''two words'' = g_shell_quote ''two words''"
proof -
  have d: "distinct (g_key_file_get_groups ex_desktop_key_file)"
    and m: "''Desktop Entry'' \<in> set (g_key_file_get_groups ex_desktop_key_file)"
    by (simp_all add: g_key_file_get_groups_def ex_desktop_key_file_def)
  have old: "g_key_file_get_string ex_desktop_key_file ''Desktop Entry'' ''Exec'' = Some ''gedit %U''"
    by (simp add: g_key_file_get_string_def ex_desktop_key_file_def)
  have tok: "shell_parse_argv ex_export_ops ''gedit %U'' = Some [''gedit'', ''%U'']"
    by code_simp
  have q: "maybe_quote ''master'' = ''master''" "maybe_quote ''x86_64'' = ''x86_64''"
    "maybe_quote ''gedit'' = ''gedit''" "maybe_quote ''org.test.Hello'' = ''org.test.Hello''"
    "maybe_quote ''%U'' = ''%U''" "maybe_quote ''two words'' = g_shell_quote ''two words''"
    by code_simp+
  have b: "bindir ex_export_ops = ''/usr/bin''" by (simp add: ex_export_ops_def)
  from export_desktop_file_exec [OF ex_desktop_file_export ex_desktop_file_load d m]
  show ?thesis
    using ex_desktop_file_export ex_desktop_file_load d m q
    by (simp add: old tok b)
qed

subsection \<open>A regular file without the application's prefix\<close>

text \<open>
  Claim C5. A regular file whose name is not prefixed by the application name is deleted
  with a warning, and the traversal is to go on with the next entry. Where the name ends
  in \<^verbatim>\<open>.desktop\<close> or \<^verbatim>\<open>.service\<close> it does not: after the \<^verbatim>\<open>unlinkat\<close> the loop still
  calls \<^verbatim>\<open>export_desktop_file\<close> on the name, the file is no longer there to open, and
  the whole rewrite fails with the entries that follow unvisited.
\<close>

theorem rewrite_export_dir_non_prefixed_launcher:
  assumes "name \<notin> set visited" "\<not> has_name_prefix ops name app"
    "g_str_has_suffix name ''.desktop'' \<or> g_str_has_suffix name ''.service''"
  shows "rewrite_export_dir ops app branch arch visited ((name, Regular contents) # rest)
           = (Inl G_IO_ERROR_NOT_FOUND, rest, [warn_non_prefixed name app])"
  using assms by (simp add: export_desktop_file_def Let_def)

text \<open>The file \<^verbatim>\<open>evil.desktop\<close> in the application \<^verbatim>\<open>org.test.Hello\<close>, followed by a
  launcher that would be rewritten.\<close>

theorem rewrite_export_dir_non_prefixed_launcher_witness:
  "''evil.desktop'' \<notin> set []
   \<and> \<not> has_name_prefix ex_export_ops ''evil.desktop'' ''org.test.Hello''
   \<and> g_str_has_suffix ''evil.desktop'' ''.desktop''
   \<and> rewrite_export_dir ex_export_ops ''org.test.Hello'' ''master'' ''x86_64'' []
        [(''evil.desktop'', Regular ex_desktop_file),
         (''org.test.Hello.desktop'', Regular ex_desktop_file)]
      = (Inl G_IO_ERROR_NOT_FOUND, [(''org.test.Hello.desktop'', Regular ex_desktop_file)],
         [''Non-prefixed filename evil.desktop in app org.test.Hello, removing.''])"
  using rewrite_export_dir_non_prefixed_launcher [of "''evil.desktop''" "[]" ex_export_ops
      "''org.test.Hello''" "''master''" "''x86_64''" ex_desktop_file
      "[(''org.test.Hello.desktop'', Regular ex_desktop_file)]"]
  by (simp add: ex_export_ops_def prefixed_with_def g_str_has_suffix_def warn_non_prefixed_def)

subsection \<open>A service file with the wrong name\<close>

lemma export_desktop_file_bad_service:
  assumes "g_str_has_suffix name ''.service''" "service_name_wrong ops name contents"
  shows "export_desktop_file ops app branch arch name (Some (Regular contents)) = Inl G_IO_ERROR_FAILED"
  using assms
  by (auto simp: export_desktop_file_def service_name_wrong_def Let_def split: sum.splits)

lemma export_desktop_file_None:
  "export_desktop_file ops app branch arch name None = Inl G_IO_ERROR_NOT_FOUND"
  by (simp add: export_desktop_file_def Let_def)

lemma rewrite_export_dir_bad_service:
  "has_bad_service ops es \<Longrightarrow> wf_node (Directory es) \<Longrightarrow> set visited \<inter> fst ` set es = {} \<Longrightarrow>
   \<exists>e. fst (rewrite_export_dir ops app branch arch visited es) = Inl e"
proof (induction ops app branch arch visited es rule: rewrite_export_dir.induct)
  case (1 ops app branch arch visited)
  then show ?case by simp
next
  case (2 ops app branch arch visited name sub rest)
  from "2.prems" have nv: "name \<notin> set visited" by auto
  from "2.prems"(2) have wfs: "wf_node (Directory sub)" and wfr: "wf_node (Directory rest)"
    and nr: "name \<notin> fst ` set rest" by auto
  have vis: "set (name # visited) \<inter> fst ` set rest = {}" using "2.prems"(3) nr by auto
  obtain r sub' ws where s: "rewrite_export_dir ops app branch arch [] sub = (r, sub', ws)"
    by (cases "rewrite_export_dir ops app branch arch [] sub") auto
  show ?case
  proof (cases r)
    case (Inl e)
    then show ?thesis using nv s by simp
  next
    case (Inr u)
    have "\<not> has_bad_service ops sub"
    proof
      assume "has_bad_service ops sub"
      from "2.IH"(2) [OF nv this wfs] s Inr show False by simp
    qed
    then have bad: "has_bad_service ops rest" using "2.prems"(1) by simp
    have "\<exists>e. fst (rewrite_export_dir ops app branch arch (name # visited) rest) = Inl e"
      using "2.IH"(3) [OF nv s [symmetric] Inr refl bad wfr vis] .
    then show ?thesis using nv s Inr by (auto split: prod.splits)
  qed
next
  case (3 ops app branch arch visited name contents rest)
  from "3.prems" have nv: "name \<notin> set visited" by auto
  from "3.prems"(2) have wfr: "wf_node (Directory rest)" and nr: "name \<notin> fst ` set rest" by auto
  have vis: "set (name # visited) \<inter> fst ` set rest = {}" using "3.prems"(3) nr by auto
  show ?case
  proof (cases "g_str_has_suffix name ''.service'' \<and> service_name_wrong ops name contents")
    case True
    then show ?thesis using nv
      by (simp add: Let_def export_desktop_file_bad_service export_desktop_file_None)
  next
    case False
    then have bad: "has_bad_service ops rest" using "3.prems"(1) by auto
    show ?thesis
    proof (cases "g_str_has_suffix name ''.desktop'' \<or> g_str_has_suffix name ''.service''")
      case suffix: True
      show ?thesis
      proof (cases "export_desktop_file ops app branch arch name
                      (if has_name_prefix ops name app then Some (Regular contents) else None)")
        case (Inl e)
        then show ?thesis using nv suffix by (simp add: Let_def)
      next
        case (Inr new_data)
        have "\<exists>e. fst (rewrite_export_dir ops app branch arch (name # visited) rest) = Inl e"
          using "3.IH"(2) [OF nv refl refl refl refl suffix Inr bad wfr vis] .
        then show ?thesis using nv suffix Inr by (auto simp: Let_def split: prod.splits)
      qed
    next
      case nosuffix: False
      have "\<exists>e. fst (rewrite_export_dir ops app branch arch (name # visited) rest) = Inl e"
        using "3.IH"(3) [OF nv refl refl refl refl nosuffix bad wfr vis] .
      then show ?thesis using nv nosuffix by (auto simp: Let_def split: prod.splits)
    qed
  qed
qed (auto split: prod.splits)

end
